theory Spec2Isabelle
  imports Main "HOL-Library.Word" "HOL-Library.Sublist"
begin

section \<open>Data model of the sync handler\<close>

text \<open>
  The embedding follows \<^verbatim>\<open>pkg/controller/distributedrediscluster/sync_handler.go\<close>.
  A Go \<^verbatim>\<open>int32\<close> field is a \<open>32 word\<close> read with \<open>sint\<close>, a Go \<^verbatim>\<open>int\<close> that only
  counts slice elements or group ordinals is an \<open>int\<close>, \<^verbatim>\<open>time.Duration\<close> is a 64-bit
  count of nanoseconds.
\<close>

type_synonym Duration = "64 word"

definition Second :: Duration where
  "Second = 1000000000"

definition Minute :: Duration where
  "Minute = 60 * Second"

definition requeueAfter :: Duration where
  "requeueAfter = 10 * Second"

record BackupSource =
  SourceNamespace :: string
  SourceName :: string

record InitSpec =
  BackupSource :: "BackupSource option"

record DistributedRedisClusterSpec =
  Image' :: string
  MasterSize :: "32 word"
  ClusterReplicas :: "32 word"
  Init :: "InitSpec option"

record DistributedRedisClusterStatus =
  RestoreSucceeded :: "32 word"
  MinReplicationFactor :: "32 word"

record DistributedRedisCluster =
  Name :: string
  Namespace :: string
  Spec :: DistributedRedisClusterSpec
  Status :: DistributedRedisClusterStatus

datatype BackupPhase = BackupPhaseSucceeded | BackupPhaseOther string

record RedisClusterBackupStatus =
  Phase :: BackupPhase
  ClusterImage :: string
  BackupMasterSize :: "32 word"
  BackupClusterReplicas :: "32 word"

record RedisClusterBackup =
  BackupStatus :: RedisClusterBackupStatus

record Node =
  ID :: string
  IP :: string
  Slots :: "nat list"

text \<open>
  \<^verbatim>\<open>ClusterInfos.Infos\<close> is a Go map; ranging over it yields its entries in an order
  that the runtime chooses. The list holds the entries in the order the range statement
  of this execution yields them. \<^verbatim>\<open>nodeInfo.Node\<close> is a pointer, \<open>None\<close> is nil.
\<close>

record NodeInfos =
  InfoNode :: "Node option"

record ClusterInfos =
  Infos :: "(string \<times> NodeInfos) list"

type_synonym Labels = "(string \<times> string) list"

record StatefulSet =
  Labels :: Labels

subsection \<open>Classified errors\<close>

text \<open>
  Modelled from the spec: the error kinds and their \<^verbatim>\<open>Wrap\<close> and \<^verbatim>\<open>New\<close> are declared in
  another file of the package. Section 4.4: every kind is one of five, and "wrapping always
  preserves the original cause and attaches the step name". These are the five kinds that
  this file uses (\<^verbatim>\<open>Kubernetes.Wrap\<close>, \<^verbatim>\<open>StopRetry.Wrap\<close>, \<^verbatim>\<open>Requeue.Wrap\<close>, \<^verbatim>\<open>Redis.Wrap\<close>,
  \<^verbatim>\<open>Redis.New\<close>, \<^verbatim>\<open>Cluster.Wrap\<close>). An error value is one made here by \<^verbatim>\<open>fmt.Errorf\<close>,
  one handed back by a collaborator, or a wrapped one. A collaborator's error carries
  whether \<^verbatim>\<open>k8sutil.IsRequestRetryable\<close> holds of it.
\<close>

datatype ErrorType = Kubernetes | StopRetry | Requeue | Redis | Cluster

datatype error =
    Errorf string
  | External bool string
  | Wrap ErrorType error string
  | New ErrorType string

text \<open>
  Modelled from the spec: \<^verbatim>\<open>k8sutil.IsRequestRetryable\<close> is not in this file. Section 4.1:
  "infrastructure-class errors are retried, all other validation failures stop retrying
  permanently". An error of the platform API says whether it is of that class; an error
  built by \<^verbatim>\<open>fmt.Errorf\<close> is not a platform error.
\<close>

fun IsRequestRetryable :: "error \<Rightarrow> bool" where
  "IsRequestRetryable (External retryable msg) = retryable"
| "IsRequestRetryable (Errorf msg) = False"
| "IsRequestRetryable (Wrap k e msg) = False"
| "IsRequestRetryable (New k msg) = False"

text \<open>
  Modelled from the spec: the classifier (section 4.4) reads the kind an error was wrapped
  with at the outermost level; an error that was never wrapped has none.
\<close>

fun GetType :: "error \<Rightarrow> ErrorType option" where
  "GetType (Wrap k e msg) = Some k"
| "GetType (New k msg) = Some k"
| "GetType (Errorf msg) = None"
| "GetType (External retryable msg) = None"

text \<open>The kinds an error value has been wrapped with, the outermost first.\<close>

fun kinds :: "error \<Rightarrow> ErrorType list" where
  "kinds (Wrap k e msg) = k # kinds e"
| "kinds (New k msg) = [k]"
| "kinds (Errorf msg) = []"
| "kinds (External retryable msg) = []"

text \<open>What a Go function of result type \<^verbatim>\<open>error\<close> does: return nil, return an error, or fault.\<close>

datatype outcome = OK | Err error | Panic

subsection \<open>Effects\<close>

datatype waiter =
    WaitStatefulSetUpdating (name: string) (timeout: Duration) (tick: Duration)
  | WaitPodTerminating (name: string) (statefulSet: string) (timeout: Duration) (tick: Duration)

text \<open>
  Every request to a collaborator and every log line, in the order the code issues them.
  Log lines keep the message and drop the key/value pairs.
\<close>

datatype event =
    Info string
  | Debug string
  | LogError error string
  | GetRedisClusterBackup string string
  | ClusterValidate
  | EnsureRedisConfigMap
  | EnsureRedisStatefulsets
  | Waiting waiter
  | EnsureRedisHeadLessSvcs
  | EnsureRedisSvc
  | EnsureRedisOSMSecret
  | FixTerminatingPods Duration
  | CheckRedisNodeNum
  | GetClusterInfos
  | AttachNodeToCluster string
  | Sleep Duration
  | NewRedisCluster
  | DispatchMasters
  | PlaceSlaves
  | AttachingSlavesToMaster
  | AllocSlots "Node list"
  | RebalancedCluster "Node list"
  | DispatchSlotToNewMasters "Node list" "Node list" "Node list"
  | ConnectionsRemove string
  | GetStatefulSet string string
  | ForgetNode string
  | DeleteStatefulSetByName string string
  | DeleteServiceByName string string
  | DeletePodDisruptionBudgetByName string string
  | DeletePvcByLabels string Labels

text \<open>
  The collaborators of the handler and the helpers that live in other files. A
  collaborator answers a request as a function of everything that happened before it, so
  that the same request can fail once and succeed later. \<open>errOf\<close> answers the requests
  whose only result is an \<^verbatim>\<open>error\<close>; \<open>clusterValidate\<close> is \<^verbatim>\<open>cluster.Validate\<close>, which
  works on the cluster through its pointer. The other requests take the cluster, the
  backup and the labels of \<^verbatim>\<open>getLabels\<close> as arguments and are taken to leave them as they
  are; an event does not record these arguments. \<^verbatim>\<open>clustering.NewCtx\<close> and the three
  accessors of the plan return no error and leave no event.

  Modelled from the spec: \<^verbatim>\<open>waiting\<close> is a function of the package that is not in this
  file. Section 4.3: it blocks until the condition of the waiter holds and fails with an
  error when the timeout elapses first. It is the request \<open>Waiting w\<close>, answered by
  \<open>errOf\<close>.
\<close>

record env =
  errOf :: "event list \<Rightarrow> event \<Rightarrow> error option"
  GetRedisClusterBackup_result :: "event list \<Rightarrow> string \<Rightarrow> string \<Rightarrow> error + RedisClusterBackup"
  EnsureRedisStatefulsets_result :: "event list \<Rightarrow> error + bool"
  GetStatefulSet_result :: "event list \<Rightarrow> string \<Rightarrow> string \<Rightarrow> error + StatefulSet"
  clusterValidate :: "DistributedRedisCluster \<Rightarrow> DistributedRedisCluster"
  GetCurrentMasters :: "event list \<Rightarrow> Node list"
  GetNewMasters :: "event list \<Rightarrow> Node list"
  GetStatefulsetNodes :: "event list \<Rightarrow> string \<rightharpoonup> Node list"
  ClusterStatefulSetName :: "string \<Rightarrow> int \<Rightarrow> string"
  ClusterHeadlessSvcName :: "string \<Rightarrow> int \<Rightarrow> string"
  IPPort :: "Node \<Rightarrow> string"
  String :: "Node \<Rightarrow> string"

text \<open>
  The context of one tick: the cluster object behind the pointer, the topology snapshot,
  and the effects so far (the logger and the clients are reached through it).
\<close>

record syncContext =
  cluster :: DistributedRedisCluster
  clusterInfos :: ClusterInfos
  trace :: "event list"

section \<open>The operations\<close>

subsection \<open>validate\<close>

definition validate ::
  "env \<Rightarrow> DistributedRedisCluster \<Rightarrow> event list \<Rightarrow> outcome \<times> DistributedRedisCluster \<times> event list" where
  "validate env cl t =
     (case Init (Spec cl) of
        None \<Rightarrow> (OK, clusterValidate env cl, t @ [ClusterValidate])
      | Some initSpec \<Rightarrow>
          (case BackupSource initSpec of
             None \<Rightarrow> (Err (Errorf ''backupSource is required''), cl, t)
           | Some src \<Rightarrow>
               (let t1 = t @ [GetRedisClusterBackup (SourceNamespace src) (SourceName src)] in
                case GetRedisClusterBackup_result env t (SourceNamespace src) (SourceName src) of
                  Inl err \<Rightarrow> (Err err, cl, t1)
                | Inr backup \<Rightarrow>
                    if Phase (BackupStatus backup) \<noteq> BackupPhaseSucceeded
                    then (Err (Errorf ''backup is still running''), cl, t1)
                    else
                      (let image = (if Image' (Spec cl) = [] then ClusterImage (BackupStatus backup)
                                    else Image' (Spec cl));
                           replicas = (if sint (RestoreSucceeded (Status cl)) \<le> 0 then 0
                                       else BackupClusterReplicas (BackupStatus backup));
                           cl1 = cl\<lparr>Spec := (Spec cl)\<lparr>Image' := image,
                                   MasterSize := BackupMasterSize (BackupStatus backup),
                                   ClusterReplicas := replicas\<rparr>\<rparr>
                       in (OK, clusterValidate env cl1, t1 @ [ClusterValidate])))))"

subsection \<open>The idioms of the calls\<close>

text \<open>
  \<^verbatim>\<open>if err := call(); err != nil { return kind.Wrap(err, msg) }\<close>, the same with the error
  returned as it is, and the call whose error is only logged.
\<close>

definition wrapped ::
  "env \<Rightarrow> ErrorType \<Rightarrow> string \<Rightarrow> event \<Rightarrow> event list \<Rightarrow> (event list \<Rightarrow> outcome \<times> event list)
    \<Rightarrow> outcome \<times> event list" where
  "wrapped env k msg c t rest =
     (case errOf env t c of
        Some err \<Rightarrow> (Err (Wrap k err msg), t @ [c])
      | None \<Rightarrow> rest (t @ [c]))"

definition unwrapped ::
  "env \<Rightarrow> event \<Rightarrow> event list \<Rightarrow> (event list \<Rightarrow> outcome \<times> event list) \<Rightarrow> outcome \<times> event list" where
  "unwrapped env c t rest =
     (case errOf env t c of
        Some err \<Rightarrow> (Err err, t @ [c])
      | None \<Rightarrow> rest (t @ [c]))"

definition logged :: "env \<Rightarrow> event \<Rightarrow> string \<Rightarrow> event list \<Rightarrow> event list" where
  "logged env c msg t =
     (case errOf env t c of
        Some err \<Rightarrow> t @ [c, LogError err msg]
      | None \<Rightarrow> t @ [c])"

subsection \<open>ensureCluster\<close>

text \<open>Lines 40 to 47: the backup is fetched a second time when the spec names one.\<close>

definition fetchBackup ::
  "env \<Rightarrow> DistributedRedisCluster \<Rightarrow> event list \<Rightarrow> (outcome + RedisClusterBackup option) \<times> event list" where
  "fetchBackup env cl t =
     (case Init (Spec cl) of
        None \<Rightarrow> (Inr None, t)
      | Some initSpec \<Rightarrow>
          (case BackupSource initSpec of
             None \<Rightarrow> (Inl Panic, t)
           | Some src \<Rightarrow>
               (case GetRedisClusterBackup_result env t (SourceNamespace src) (SourceName src) of
                  Inl err \<Rightarrow> (Inl (Err err), t @ [GetRedisClusterBackup (SourceNamespace src) (SourceName src)])
                | Inr backup \<Rightarrow>
                    (Inr (Some backup), t @ [GetRedisClusterBackup (SourceNamespace src) (SourceName src)]))))"

text \<open>Lines 66 to 78: the network endpoints and the credential resource.\<close>

definition ensureEndpoints :: "env \<Rightarrow> event list \<Rightarrow> outcome \<times> event list" where
  "ensureEndpoints env t =
     wrapped env Kubernetes ''EnsureRedisHeadLessSvcs'' EnsureRedisHeadLessSvcs t (\<lambda>t1.
     wrapped env Kubernetes ''EnsureRedisSvc'' EnsureRedisSvc t1 (\<lambda>t2.
       case errOf env t2 EnsureRedisOSMSecret of
         Some err \<Rightarrow>
           (if IsRequestRetryable err then Err (Wrap Kubernetes err ''EnsureRedisOSMSecret'')
            else Err (Wrap StopRetry err ''stop retry''), t2 @ [EnsureRedisOSMSecret])
       | None \<Rightarrow> (OK, t2 @ [EnsureRedisOSMSecret])))"

text \<open>The waiter of line 55.\<close>

definition statefulSetWaiter :: "DistributedRedisCluster \<Rightarrow> waiter" where
  "statefulSetWaiter cl =
     WaitStatefulSetUpdating ''waitStatefulSetUpdating''
       (30 * Second * scast (ClusterReplicas (Spec cl) + 2)) (5 * Second)"

text \<open>Lines 48 to 65, then the endpoints.\<close>

definition ensureResources :: "env \<Rightarrow> DistributedRedisCluster \<Rightarrow> event list \<Rightarrow> outcome \<times> event list" where
  "ensureResources env cl t =
     wrapped env Kubernetes ''EnsureRedisConfigMap'' EnsureRedisConfigMap t (\<lambda>t1.
       case EnsureRedisStatefulsets_result env t1 of
         Inl err \<Rightarrow>
           (Err (Wrap Kubernetes err ''EnsureRedisStatefulSets''),
            t1 @ [EnsureRedisStatefulsets, LogError err ''EnsureRedisStatefulSets''])
       | Inr updated \<Rightarrow>
           if updated
           then unwrapped env (Waiting (statefulSetWaiter cl)) (t1 @ [EnsureRedisStatefulsets])
                  (ensureEndpoints env)
           else ensureEndpoints env (t1 @ [EnsureRedisStatefulsets]))"

definition ensureCluster :: "env \<Rightarrow> syncContext \<Rightarrow> outcome \<times> syncContext" where
  "ensureCluster env ctx =
     (case validate env (cluster ctx) (trace ctx) of
        (Err err, cl, t) \<Rightarrow>
          (if IsRequestRetryable err then Err (Wrap Kubernetes err ''Validate'')
           else Err (Wrap StopRetry err ''stop retry''),
           ctx\<lparr>cluster := cl, trace := t\<rparr>)
      | (Panic, cl, t) \<Rightarrow> (Panic, ctx\<lparr>cluster := cl, trace := t\<rparr>)
      | (OK, cl, t) \<Rightarrow>
          (case fetchBackup env cl t of
             (Inl out, t1) \<Rightarrow> (out, ctx\<lparr>cluster := cl, trace := t1\<rparr>)
           | (Inr backup, t1) \<Rightarrow>
               (case ensureResources env cl t1 of
                  (out, t2) \<Rightarrow> (out, ctx\<lparr>cluster := cl, trace := t2\<rparr>))))"

subsection \<open>waitPodReady\<close>

definition waitPodReady :: "env \<Rightarrow> syncContext \<Rightarrow> outcome \<times> syncContext" where
  "waitPodReady env ctx =
     (case wrapped env Kubernetes ''FixTerminatingPods'' (FixTerminatingPods (5 * Minute)) (trace ctx) (\<lambda>t1.
           wrapped env Requeue ''CheckRedisNodeNum'' CheckRedisNodeNum t1 (\<lambda>t2. (OK, t2))) of
        (out, t) \<Rightarrow> (out, ctx\<lparr>trace := t\<rparr>))"

subsection \<open>waitForClusterJoin\<close>

text \<open>
  Modelled from the spec: \<^verbatim>\<open>Node.IPPort\<close> (package redisutil) is not in this file. It gives
  the node's network address (section 3), read through the receiver, so that a nil
  receiver faults. \<open>IPPort env\<close> is the address of a node that is there.
\<close>

definition firstNodeOf :: "ClusterInfos \<Rightarrow> Node option" where
  "firstNodeOf infos = (case Infos infos of [] \<Rightarrow> None | (key, nodeInfo) # others \<Rightarrow> InfoNode nodeInfo)"

definition waitForClusterJoin :: "env \<Rightarrow> syncContext \<Rightarrow> outcome \<times> syncContext" where
  "waitForClusterJoin env ctx =
     (let t = trace ctx in
      case errOf env t GetClusterInfos of
        None \<Rightarrow> (OK, ctx\<lparr>trace := t @ [GetClusterInfos, Debug ''debug waitForClusterJoin'']\<rparr>)
      | Some err0 \<Rightarrow>
          (let t1 = t @ [GetClusterInfos, Info ''>>> Sending CLUSTER MEET messages to join the cluster'']
           in case firstNodeOf (clusterInfos ctx) of
                None \<Rightarrow> (Panic, ctx\<lparr>trace := t1\<rparr>)
              | Some firstNode \<Rightarrow>
                  (case wrapped env Redis ''AttachNodeToCluster'' (AttachNodeToCluster (IPPort env firstNode)) t1 (\<lambda>t2.
                        wrapped env Requeue ''wait for cluster join'' GetClusterInfos (t2 @ [Sleep (1 * Second)])
                          (\<lambda>t3. (OK, t3))) of
                     (out, t4) \<Rightarrow> (out, ctx\<lparr>trace := t4\<rparr>))))"

subsection \<open>scalingDown\<close>

text \<open>\<^verbatim>\<open>statefulSetNodes[stsName]\<close>: a missing key gives the nil slice.\<close>

definition nodesOf :: "(string \<rightharpoonup> Node list) \<Rightarrow> string \<Rightarrow> Node list" where
  "nodesOf statefulSetNodes stsName = (case statefulSetNodes stsName of None \<Rightarrow> [] | Some ns \<Rightarrow> ns)"

text \<open>The first loop, lines 216 to 221, from ordinal \<open>i\<close> downwards.\<close>

function removeLoop ::
  "env \<Rightarrow> DistributedRedisCluster \<Rightarrow> (string \<rightharpoonup> Node list) \<Rightarrow> int \<Rightarrow> int \<Rightarrow> event list \<Rightarrow> event list" where
  "removeLoop env cl statefulSetNodes expectMasterNum i t =
     (if i \<ge> expectMasterNum
      then removeLoop env cl statefulSetNodes expectMasterNum (i - 1)
             (t @ map (\<lambda>node. ConnectionsRemove (IPPort env node))
                    (nodesOf statefulSetNodes (ClusterStatefulSetName env (Name cl) i)))
      else t)"
  by pat_completeness auto
termination
  by (relation "measure (\<lambda>(env, cl, statefulSetNodes, expectMasterNum, i, t). nat (i - expectMasterNum + 1))") auto

declare removeLoop.simps [simp del]

text \<open>The loop over the nodes of one group, lines 229 to 237.\<close>

definition notEmptyMessage :: "env \<Rightarrow> Node \<Rightarrow> string" where
  "notEmptyMessage env node = ''node '' @ String env node @ '' is not empty! Reshard data away and try again''"

fun forgetLoop :: "env \<Rightarrow> Node list \<Rightarrow> event list \<Rightarrow> outcome \<times> event list" where
  "forgetLoop env [] t = (OK, t)"
| "forgetLoop env (node # others) t =
     (if length (Slots node) > 0
      then (Err (New Redis (notEmptyMessage env node)), t @ [Info ''forgetNode''])
      else wrapped env Redis ''ForgetNode'' (ForgetNode (ID node)) (t @ [Info ''forgetNode''])
             (forgetLoop env others))"

text \<open>The waiter of line 253.\<close>

definition podTerminatingWaiter :: "DistributedRedisCluster \<Rightarrow> string \<Rightarrow> waiter" where
  "podTerminatingWaiter cl stsName =
     WaitPodTerminating ''waitPodTerminating'' stsName
       (30 * Second * scast (ClusterReplicas (Spec cl) + 2)) (5 * Second)"

text \<open>Lines 238 to 263: the resources of one group are removed, every failure only logged.\<close>

definition removeResources ::
  "env \<Rightarrow> DistributedRedisCluster \<Rightarrow> int \<Rightarrow> StatefulSet \<Rightarrow> event list \<Rightarrow> event list" where
  "removeResources env cl i sts t =
     (let stsName = ClusterStatefulSetName env (Name cl) i;
          svcName = ClusterHeadlessSvcName env (Name cl) i;
          t1 = logged env (DeleteStatefulSetByName (Namespace cl) stsName) ''DeleteStatefulSetByName'' t;
          t2 = logged env (DeleteServiceByName (Namespace cl) svcName) ''DeleteServiceByName'' t1;
          t3 = logged env (DeletePodDisruptionBudgetByName (Namespace cl) stsName)
                 ''DeletePodDisruptionBudgetByName'' t2;
          t4 = logged env (DeletePvcByLabels (Namespace cl) (Labels sts)) ''DeletePvcByLabels'' t3
      in logged env (Waiting (podTerminatingWaiter cl stsName)) ''waitPodTerminating'' t4)"

text \<open>The second loop, lines 222 to 265, from ordinal \<open>i\<close> downwards.\<close>

function retireLoop ::
  "env \<Rightarrow> DistributedRedisCluster \<Rightarrow> (string \<rightharpoonup> Node list) \<Rightarrow> int \<Rightarrow> int \<Rightarrow> event list
    \<Rightarrow> outcome \<times> event list" where
  "retireLoop env cl statefulSetNodes expectMasterNum i t =
     (if i \<ge> expectMasterNum
      then
        (let stsName = ClusterStatefulSetName env (Name cl) i;
             t1 = t @ [Info ''scaling down'']
         in case GetStatefulSet_result env t1 (Namespace cl) stsName of
              Inl err \<Rightarrow> (Err (Wrap Kubernetes err ''GetStatefulSet''), t1 @ [GetStatefulSet (Namespace cl) stsName])
            | Inr sts \<Rightarrow>
                (case forgetLoop env (nodesOf statefulSetNodes stsName)
                        (t1 @ [GetStatefulSet (Namespace cl) stsName]) of
                   (OK, t2) \<Rightarrow>
                     retireLoop env cl statefulSetNodes expectMasterNum (i - 1)
                       (removeResources env cl i sts t2)
                 | (Err err, t2) \<Rightarrow> (Err err, t2)
                 | (Panic, t2) \<Rightarrow> (Panic, t2)))
      else (OK, t))"
  by pat_completeness auto
termination
  by (relation "measure (\<lambda>(env, cl, statefulSetNodes, expectMasterNum, i, t). nat (i - expectMasterNum + 1))") auto

declare retireLoop.simps [simp del]

definition scalingDown ::
  "env \<Rightarrow> syncContext \<Rightarrow> int \<Rightarrow> (string \<rightharpoonup> Node list) \<Rightarrow> outcome \<times> syncContext" where
  "scalingDown env ctx currentMasterNum statefulSetNodes =
     (let cl = cluster ctx;
          expectMasterNum = sint (MasterSize (Spec cl));
          t1 = removeLoop env cl statefulSetNodes expectMasterNum (currentMasterNum - 1) (trace ctx)
      in case retireLoop env cl statefulSetNodes expectMasterNum (currentMasterNum - 1) t1 of
           (out, t2) \<Rightarrow> (out, ctx\<lparr>trace := t2\<rparr>))"

subsection \<open>syncCluster\<close>

definition syncCluster :: "env \<Rightarrow> syncContext \<Rightarrow> outcome \<times> syncContext" where
  "syncCluster env ctx =
     (let cl = cluster ctx;
          expectMasterNum = MasterSize (Spec cl)
      in case wrapped env Cluster ''newRedisCluster'' NewRedisCluster (trace ctx) (\<lambda>t1.
              wrapped env Cluster ''DispatchMasters'' DispatchMasters t1 (\<lambda>t2.
                let curMasters = GetCurrentMasters env t2;
                    newMasters = GetNewMasters env t2;
                    t3 = t2 @ [Info ''masters'']
                in
                  if length curMasters = 0 then
                    wrapped env Cluster ''PlaceSlaves'' PlaceSlaves (t3 @ [Info ''Creating cluster'']) (\<lambda>t4.
                    wrapped env Cluster ''AttachingSlavesToMaster'' AttachingSlavesToMaster t4 (\<lambda>t5.
                    wrapped env Cluster ''AllocSlots'' (AllocSlots newMasters) t5 (\<lambda>t6. (OK, t6))))
                  else if length newMasters > length curMasters then
                    wrapped env Cluster ''PlaceSlaves'' PlaceSlaves (t3 @ [Info ''Scaling up'']) (\<lambda>t4.
                    wrapped env Cluster ''AttachingSlavesToMaster'' AttachingSlavesToMaster t4 (\<lambda>t5.
                    wrapped env Cluster ''RebalancedCluster'' (RebalancedCluster newMasters) t5 (\<lambda>t6. (OK, t6))))
                  else if sint (MinReplicationFactor (Status cl)) < sint (ClusterReplicas (Spec cl)) then
                    wrapped env Cluster ''PlaceSlaves'' PlaceSlaves (t3 @ [Info ''Scaling slave'']) (\<lambda>t4.
                    wrapped env Cluster ''AttachingSlavesToMaster'' AttachingSlavesToMaster t4 (\<lambda>t5. (OK, t5)))
                  else if int (length curMasters) > sint expectMasterNum then
                    (let allMaster = newMasters @ curMasters in
                     unwrapped env (DispatchSlotToNewMasters newMasters curMasters allMaster)
                       (t3 @ [Info ''Scaling down'']) (\<lambda>t4.
                         case scalingDown env (ctx\<lparr>trace := t4\<rparr>) (int (length curMasters))
                                (GetStatefulsetNodes env t4) of
                           (out, ctx') \<Rightarrow> (out, trace ctx')))
                  else (OK, t3))) of
           (out, t) \<Rightarrow> (out, ctx\<lparr>trace := t\<rparr>))"

section \<open>Concrete inputs\<close>

text \<open>Collaborators that always succeed, and the ways they fail in the examples below.\<close>

definition backupDone :: RedisClusterBackup where
  "backupDone = \<lparr>BackupStatus = \<lparr>Phase = BackupPhaseSucceeded, ClusterImage = ''redis:6'',
      BackupMasterSize = 5, BackupClusterReplicas = 2\<rparr>\<rparr>"

definition backupRunning :: RedisClusterBackup where
  "backupRunning = \<lparr>BackupStatus = \<lparr>Phase = BackupPhaseOther ''Running'', ClusterImage = ''redis:6'',
      BackupMasterSize = 5, BackupClusterReplicas = 2\<rparr>\<rparr>"

definition exampleName :: "string \<Rightarrow> int \<Rightarrow> string" where
  "exampleName clusterName i =
     clusterName @ (if i = 0 then ''-0'' else if i = 1 then ''-1'' else if i = 2 then ''-2''
                    else if i = 3 then ''-3'' else if i = 4 then ''-4'' else ''-n'')"

definition calm :: env where
  "calm = \<lparr>errOf = (\<lambda>t c. None),
     GetRedisClusterBackup_result = (\<lambda>t ns nm. Inr backupDone),
     EnsureRedisStatefulsets_result = (\<lambda>t. Inr False),
     GetStatefulSet_result = (\<lambda>t ns nm. Inr \<lparr>Labels = [(''app'', nm)]\<rparr>),
     clusterValidate = (\<lambda>cl. cl),
     GetCurrentMasters = (\<lambda>t. []),
     GetNewMasters = (\<lambda>t. []),
     GetStatefulsetNodes = (\<lambda>t. Map.empty),
     ClusterStatefulSetName = exampleName,
     ClusterHeadlessSvcName = exampleName,
     IPPort = (\<lambda>node. IP node @ '':6379''),
     String = ID\<rparr>"

definition restoring :: DistributedRedisCluster where
  "restoring = \<lparr>Name = ''drc'', Namespace = ''default'',
     Spec = \<lparr>Image' = ''redis:5'', MasterSize = 3, ClusterReplicas = 1,
        Init = Some \<lparr>BackupSource = Some \<lparr>SourceNamespace = ''default'', SourceName = ''nightly''\<rparr>\<rparr>\<rparr>,
     Status = \<lparr>RestoreSucceeded = 0, MinReplicationFactor = 0\<rparr>\<rparr>"

definition unnamedSource :: DistributedRedisCluster where
  "unnamedSource = restoring\<lparr>Spec := (Spec restoring)\<lparr>Init := Some \<lparr>BackupSource = None\<rparr>\<rparr>\<rparr>"

definition newContext :: "DistributedRedisCluster \<Rightarrow> syncContext" where
  "newContext cl = \<lparr>cluster = cl, clusterInfos = \<lparr>Infos = []\<rparr>, trace = []\<rparr>"

text \<open>The backup record is there while validate runs and gone at the second fetch.\<close>

definition backupVanishes :: env where
  "backupVanishes = calm\<lparr>GetRedisClusterBackup_result :=
     (\<lambda>t ns nm. if ClusterValidate \<in> set t then Inl (External False ''not found'') else Inr backupDone)\<rparr>"

definition backupStillRunning :: env where
  "backupStillRunning = calm\<lparr>GetRedisClusterBackup_result := (\<lambda>t ns nm. Inr backupRunning)\<rparr>"

definition backupNotFound :: env where
  "backupNotFound = calm\<lparr>GetRedisClusterBackup_result := (\<lambda>t ns nm. Inl (External False ''not found''))\<rparr>"

definition apiTimeout :: env where
  "apiTimeout = calm\<lparr>GetRedisClusterBackup_result := (\<lambda>t ns nm. Inl (External True ''timeout''))\<rparr>"

definition node0 :: Node where
  "node0 = \<lparr>ID = ''a1'', IP = ''10.0.0.1'', Slots = []\<rparr>"

definition snapshot :: "DistributedRedisCluster \<Rightarrow> syncContext" where
  "snapshot cl = \<lparr>cluster = cl, clusterInfos = \<lparr>Infos = [(''a1'', \<lparr>InfoNode = Some node0\<rparr>)]\<rparr>, trace = []\<rparr>"

definition notJoined :: env where
  "notJoined = calm\<lparr>errOf := (\<lambda>t c. if c = GetClusterInfos then Some (External False ''cluster down'') else None)\<rparr>"

definition joinRefused :: env where
  "joinRefused = calm\<lparr>errOf := (\<lambda>t c. if c = GetClusterInfos then Some (External False ''cluster down'')
       else if c = AttachNodeToCluster ''10.0.0.1:6379'' then Some (External False ''refused'') else None)\<rparr>"

definition joinsAfterMeet :: env where
  "joinsAfterMeet = calm\<lparr>errOf := (\<lambda>t c. if c = GetClusterInfos \<and> Sleep Second \<notin> set t
       then Some (External False ''cluster down'') else None)\<rparr>"

text \<open>A cluster of three groups that is asked to shrink to one.\<close>

definition masterC :: Node where
  "masterC = \<lparr>ID = ''c1'', IP = ''10.0.2.1'', Slots = []\<rparr>"

definition replicaB :: Node where
  "replicaB = \<lparr>ID = ''b2'', IP = ''10.0.1.2'', Slots = []\<rparr>"

definition masterB :: Node where
  "masterB = \<lparr>ID = ''b1'', IP = ''10.0.1.1'', Slots = [10923, 10924]\<rparr>"

definition shrinking :: DistributedRedisCluster where
  "shrinking = \<lparr>Name = ''drc'', Namespace = ''default'',
     Spec = \<lparr>Image' = ''redis:5'', MasterSize = 1, ClusterReplicas = 1, Init = None\<rparr>,
     Status = \<lparr>RestoreSucceeded = 0, MinReplicationFactor = 1\<rparr>\<rparr>"

text \<open>The master of group 1 still holds slots; its replica is listed before it.\<close>

definition loadedGroups :: "string \<rightharpoonup> Node list" where
  "loadedGroups = map_of [(''drc-2'', [masterC]), (''drc-1'', [replicaB, masterB])]"

definition drainedGroups :: "string \<rightharpoonup> Node list" where
  "drainedGroups = map_of [(''drc-2'', [masterC]), (''drc-1'', [replicaB, masterB\<lparr>Slots := []\<rparr>])]"

definition lookupFails :: env where
  "lookupFails = calm\<lparr>GetStatefulSet_result := (\<lambda>t ns nm. Inl (External True ''timeout''))\<rparr>"

text \<open>
  Three current masters, a plan of two, and a replica factor that is not yet reached.
\<close>

definition tooManyMasters :: env where
  "tooManyMasters = calm\<lparr>GetCurrentMasters := (\<lambda>t. [node0, masterB, masterC]),
     GetNewMasters := (\<lambda>t. [node0, masterB])\<rparr>"

definition wantsReplica :: DistributedRedisCluster where
  "wantsReplica = \<lparr>Name = ''drc'', Namespace = ''default'',
     Spec = \<lparr>Image' = ''redis:5'', MasterSize = 2, ClusterReplicas = 1, Init = None\<rparr>,
     Status = \<lparr>RestoreSucceeded = 0, MinReplicationFactor = 0\<rparr>\<rparr>"

text \<open>The stateful sets report a structural update.\<close>

definition updating :: env where
  "updating = calm\<lparr>EnsureRedisStatefulsets_result := (\<lambda>t. Inr True)\<rparr>"

section \<open>Reading a trace\<close>

text \<open>The ordinals of the groups that \<^verbatim>\<open>scalingDown\<close> visits, in the order of its loops.\<close>

definition retiring :: "int \<Rightarrow> int \<Rightarrow> int list" where
  "retiring currentMasterNum expectMasterNum = rev [expectMasterNum..currentMasterNum - 1]"

fun isRemoval :: "event \<Rightarrow> bool" where
  "isRemoval (ConnectionsRemove addr) = True"
| "isRemoval e = False"

text \<open>
  The requests of the retirement of a group that name one of its resources: the lookup of
  its stateful set and the four deletions. The labels of the deletion of the storage claims
  come from the stateful set that the lookup returned; \<open>unlabelled\<close> leaves them out.
\<close>

fun isGroupStep :: "event \<Rightarrow> bool" where
  "isGroupStep (GetStatefulSet ns nm) = True"
| "isGroupStep (DeleteStatefulSetByName ns nm) = True"
| "isGroupStep (DeleteServiceByName ns nm) = True"
| "isGroupStep (DeletePodDisruptionBudgetByName ns nm) = True"
| "isGroupStep (DeletePvcByLabels ns ls) = True"
| "isGroupStep e = False"

fun unlabelled :: "event \<Rightarrow> event" where
  "unlabelled (DeletePvcByLabels ns ls) = DeletePvcByLabels ns []"
| "unlabelled e = e"

text \<open>The log line that opens each branch of \<^verbatim>\<open>syncCluster\<close>.\<close>

fun isBranch :: "event \<Rightarrow> bool" where
  "isBranch (Info msg) =
     (msg = ''Creating cluster'' \<or> msg = ''Scaling up'' \<or> msg = ''Scaling slave'' \<or> msg = ''Scaling down'')"
| "isBranch e = False"

fun isWaiting :: "event \<Rightarrow> bool" where
  "isWaiting (Waiting w) = True"
| "isWaiting e = False"

text \<open>What the first loop of \<^verbatim>\<open>scalingDown\<close> asks of the connection pool for the groups \<open>js\<close>.\<close>

definition removals ::
  "env \<Rightarrow> DistributedRedisCluster \<Rightarrow> (string \<rightharpoonup> Node list) \<Rightarrow> int list \<Rightarrow> event list" where
  "removals env cl statefulSetNodes js =
     concat (map (\<lambda>j. map (\<lambda>node. ConnectionsRemove (IPPort env node))
                           (nodesOf statefulSetNodes (ClusterStatefulSetName env (Name cl) j))) js)"

text \<open>The lookup of the stateful set of group \<open>j\<close>, and the deletions of its resources.\<close>

definition lookupOf :: "env \<Rightarrow> DistributedRedisCluster \<Rightarrow> int \<Rightarrow> event" where
  "lookupOf env cl j = GetStatefulSet (Namespace cl) (ClusterStatefulSetName env (Name cl) j)"

definition deletionsOf :: "env \<Rightarrow> DistributedRedisCluster \<Rightarrow> int \<Rightarrow> event list" where
  "deletionsOf env cl j =
     [DeleteStatefulSetByName (Namespace cl) (ClusterStatefulSetName env (Name cl) j),
      DeleteServiceByName (Namespace cl) (ClusterHeadlessSvcName env (Name cl) j),
      DeletePodDisruptionBudgetByName (Namespace cl) (ClusterStatefulSetName env (Name cl) j),
      DeletePvcByLabels (Namespace cl) []]"

definition retirementSteps :: "env \<Rightarrow> DistributedRedisCluster \<Rightarrow> int list \<Rightarrow> event list" where
  "retirementSteps env cl js = concat (map (\<lambda>j. lookupOf env cl j # deletionsOf env cl j) js)"

section \<open>Properties\<close>

subsection \<open>validate and ensureCluster\<close>

lemma cluster_waitPodReady: "cluster (snd (waitPodReady env ctx)) = cluster ctx"
  by (simp add: waitPodReady_def split_beta)

lemma cluster_waitForClusterJoin: "cluster (snd (waitForClusterJoin env ctx)) = cluster ctx"
  by (simp add: waitForClusterJoin_def Let_def split_beta split: option.splits)

lemma cluster_scalingDown: "cluster (snd (scalingDown env ctx n nodes)) = cluster ctx"
  by (simp add: scalingDown_def Let_def split_beta)

lemma cluster_syncCluster: "cluster (snd (syncCluster env ctx)) = cluster ctx"
  by (simp add: syncCluster_def Let_def split_beta)

lemma cluster_ensureCluster:
  "cluster (snd (ensureCluster env ctx)) = fst (snd (validate env (cluster ctx) (trace ctx)))"
proof -
  obtain out cl t where v: "validate env (cluster ctx) (trace ctx) = (out, cl, t)"
    by (cases "validate env (cluster ctx) (trace ctx)") auto
  show ?thesis
    by (cases out) (simp_all add: ensureCluster_def v split_beta split: sum.splits)
qed

lemma validate_failure_writes_nothing:
  "fst (validate env cl t) \<noteq> OK \<Longrightarrow> fst (snd (validate env cl t)) = cl"
  by (auto simp add: validate_def Let_def split: option.splits sum.splits)

lemma validate_without_init:
  "Init (Spec cl) = None \<Longrightarrow> validate env cl t = (OK, clusterValidate env cl, t @ [ClusterValidate])"
  by (simp add: validate_def)

lemma validate_succeeded:
  assumes "Init (Spec cl) = Some initSpec" and "BackupSource initSpec = Some src"
    and "GetRedisClusterBackup_result env t (SourceNamespace src) (SourceName src) = Inr backup"
    and "Phase (BackupStatus backup) = BackupPhaseSucceeded"
  shows "validate env cl t =
      (OK,
       clusterValidate env (cl\<lparr>Spec := (Spec cl)\<lparr>
          Image' := (if Image' (Spec cl) = [] then ClusterImage (BackupStatus backup) else Image' (Spec cl)),
          MasterSize := BackupMasterSize (BackupStatus backup),
          ClusterReplicas := (if sint (RestoreSucceeded (Status cl)) \<le> 0 then 0
                              else BackupClusterReplicas (BackupStatus backup))\<rparr>\<rparr>),
       t @ [GetRedisClusterBackup (SourceNamespace src) (SourceName src), ClusterValidate])"
  using assms by (simp add: validate_def Let_def)

lemma validate_success_writes:
  assumes "fst (validate env cl t) = OK"
  shows "\<exists>image masters replicas. fst (snd (validate env cl t)) =
       clusterValidate env (cl\<lparr>Spec := (Spec cl)\<lparr>Image' := image, MasterSize := masters, ClusterReplicas := replicas\<rparr>\<rparr>)"
proof (cases "Init (Spec cl)")
  case None
  have "cl = cl\<lparr>Spec := (Spec cl)\<lparr>Image' := Image' (Spec cl), MasterSize := MasterSize (Spec cl),
      ClusterReplicas := ClusterReplicas (Spec cl)\<rparr>\<rparr>" by simp
  moreover have "fst (snd (validate env cl t)) = clusterValidate env cl"
    using None by (simp add: validate_def)
  ultimately show ?thesis by metis
next
  case (Some initSpec)
  with assms obtain src backup where "BackupSource initSpec = Some src"
    and "GetRedisClusterBackup_result env t (SourceNamespace src) (SourceName src) = Inr backup"
    and "Phase (BackupStatus backup) = BackupPhaseSucceeded"
    by (auto simp add: validate_def Let_def split: option.splits sum.splits if_splits)
  then have "fst (snd (validate env cl t)) =
       clusterValidate env (cl\<lparr>Spec := (Spec cl)\<lparr>
          Image' := (if Image' (Spec cl) = [] then ClusterImage (BackupStatus backup) else Image' (Spec cl)),
          MasterSize := BackupMasterSize (BackupStatus backup),
          ClusterReplicas := (if sint (RestoreSucceeded (Status cl)) \<le> 0 then 0
                              else BackupClusterReplicas (BackupStatus backup))\<rparr>\<rparr>)"
    using validate_succeeded [OF Some] by simp
  then show ?thesis by blast
qed

text \<open>
  Claim C3, as amended. waitPodReady, waitForClusterJoin, syncCluster and scalingDown leave
  the cluster object, and so every field of its spec, as it was. validate, and ensureCluster
  through it, write the spec: what ensureCluster leaves is what validate leaves; a validate
  that fails has written nothing; a validate that succeeds hands to the cluster's own
  Validate method a cluster that differs from the one it was given at most in the image,
  the master count and the replica count of the spec, and the very cluster it was given
  when the spec asks for no initialisation.
\<close>

theorem spec_written_only_by_validate:
  "cluster (snd (waitPodReady env ctx)) = cluster ctx
   \<and> cluster (snd (waitForClusterJoin env ctx)) = cluster ctx
   \<and> cluster (snd (syncCluster env ctx)) = cluster ctx
   \<and> cluster (snd (scalingDown env ctx currentMasterNum statefulSetNodes)) = cluster ctx
   \<and> cluster (snd (ensureCluster env ctx)) = fst (snd (validate env (cluster ctx) (trace ctx)))
   \<and> (fst (validate env cl t) \<noteq> OK \<longrightarrow> fst (snd (validate env cl t)) = cl)
   \<and> (fst (validate env cl t) = OK \<longrightarrow>
        (\<exists>image masters replicas. fst (snd (validate env cl t)) =
           clusterValidate env (cl\<lparr>Spec := (Spec cl)\<lparr>Image' := image, MasterSize := masters,
              ClusterReplicas := replicas\<rparr>\<rparr>)))
   \<and> (Init (Spec cl) = None \<longrightarrow> validate env cl t = (OK, clusterValidate env cl, t @ [ClusterValidate]))"
  by (intro conjI impI)
    (rule cluster_waitPodReady cluster_waitForClusterJoin cluster_syncCluster cluster_scalingDown
       cluster_ensureCluster validate_failure_writes_nothing validate_success_writes
       validate_without_init, (assumption)?)+

theorem spec_written_only_by_validate_witness:
  "cluster (snd (ensureCluster backupNotFound (newContext restoring))) = restoring
   \<and> fst (snd (validate backupNotFound restoring [])) = restoring
   \<and> (\<exists>image masters replicas. fst (snd (validate calm restoring [])) =
         restoring\<lparr>Spec := (Spec restoring)\<lparr>Image' := image, MasterSize := masters, ClusterReplicas := replicas\<rparr>\<rparr>)
   \<and> validate calm shrinking [] = (OK, shrinking, [ClusterValidate])"
proof -
  have f: "fst (validate backupNotFound restoring []) \<noteq> OK"
    by (simp add: validate_def backupNotFound_def calm_def restoring_def)
  have g: "fst (validate calm restoring []) = OK"
    by (simp add: validate_def calm_def restoring_def backupDone_def)
  have c: "clusterValidate calm = (\<lambda>cl. cl)"
    by (simp add: calm_def)
  note a = spec_written_only_by_validate [of backupNotFound "newContext restoring" 0 Map.empty restoring "[]"]
  note b = spec_written_only_by_validate [of calm "newContext restoring" 0 Map.empty restoring "[]"]
  have 1: "cluster (snd (ensureCluster backupNotFound (newContext restoring))) = restoring"
    using a f by (simp add: newContext_def)
  have 2: "fst (snd (validate backupNotFound restoring [])) = restoring"
    using a f by simp
  have 3: "\<exists>image masters replicas. fst (snd (validate calm restoring [])) =
         restoring\<lparr>Spec := (Spec restoring)\<lparr>Image' := image, MasterSize := masters, ClusterReplicas := replicas\<rparr>\<rparr>"
    using b g c by simp
  have 4: "validate calm shrinking [] = (OK, shrinking, [ClusterValidate])"
    using spec_written_only_by_validate [of calm "newContext restoring" 0 Map.empty shrinking "[]"] c
    by (simp add: shrinking_def)
  from 1 2 3 4 show ?thesis by simp
qed

text \<open>
  Claim C3 as stated fails: with a spec that asks for initialisation from a succeeded
  backup of five masters, the master count of the spec is 3 before validate and 5 after
  it, and after ensureCluster.
\<close>

theorem validate_overwrites_master_count:
  "MasterSize (Spec restoring) = 3
   \<and> MasterSize (Spec (fst (snd (validate calm restoring [])))) = 5
   \<and> MasterSize (Spec (cluster (snd (ensureCluster calm (newContext restoring))))) = 5"
  by (simp add: ensureCluster_def fetchBackup_def ensureResources_def ensureEndpoints_def wrapped_def
      validate_def calm_def restoring_def backupDone_def newContext_def)

text \<open>
  Claim C4 fails on the code at line 45 of the source: when the second fetch of the backup
  record fails, ensureCluster returns the collaborator's error as it is; the classifier
  finds no kind in it, and it has been wrapped with none.
\<close>

theorem ensureCluster_returns_unclassified:
  "fst (ensureCluster backupVanishes (newContext restoring)) = Err (External False ''not found'')
   \<and> GetType (External False ''not found'') = None
   \<and> kinds (External False ''not found'') = []"
  by (simp add: ensureCluster_def validate_def fetchBackup_def Let_def backupVanishes_def calm_def restoring_def newContext_def backupDone_def)

text \<open>
  Claim C5, as amended. With a spec that asks for initialisation from a backup,
  ensureCluster returns a StopRetry error when no backup source is named; when the fetch of
  the backup record fails, a Kubernetes (retryable) error if the fetch error is retryable
  and a StopRetry error otherwise; and a StopRetry error when the backup has not reached
  the succeeded phase.
\<close>

theorem ensureCluster_classifies_validation:
  "(Init (Spec (cluster ctx)) = Some initSpec \<and> BackupSource initSpec = None \<longrightarrow>
       ensureCluster env ctx = (Err (Wrap StopRetry (Errorf ''backupSource is required'') ''stop retry''), ctx))
   \<and> (Init (Spec (cluster ctx)) = Some initSpec \<and> BackupSource initSpec = Some src
        \<and> GetRedisClusterBackup_result env (trace ctx) (SourceNamespace src) (SourceName src) = Inl err \<longrightarrow>
       fst (ensureCluster env ctx) =
         (if IsRequestRetryable err then Err (Wrap Kubernetes err ''Validate'')
          else Err (Wrap StopRetry err ''stop retry'')))
   \<and> (Init (Spec (cluster ctx)) = Some initSpec \<and> BackupSource initSpec = Some src
        \<and> GetRedisClusterBackup_result env (trace ctx) (SourceNamespace src) (SourceName src) = Inr backup
        \<and> Phase (BackupStatus backup) \<noteq> BackupPhaseSucceeded \<longrightarrow>
       fst (ensureCluster env ctx) = Err (Wrap StopRetry (Errorf ''backup is still running'') ''stop retry''))"
  by (simp add: ensureCluster_def validate_def Let_def)

theorem ensureCluster_classifies_validation_witness:
  "ensureCluster calm (newContext unnamedSource) =
      (Err (Wrap StopRetry (Errorf ''backupSource is required'') ''stop retry''), newContext unnamedSource)
   \<and> fst (ensureCluster apiTimeout (newContext restoring)) = Err (Wrap Kubernetes (External True ''timeout'') ''Validate'')
   \<and> fst (ensureCluster backupNotFound (newContext restoring)) = Err (Wrap StopRetry (External False ''not found'') ''stop retry'')
   \<and> fst (ensureCluster backupStillRunning (newContext restoring)) =
        Err (Wrap StopRetry (Errorf ''backup is still running'') ''stop retry'')"
proof -
  let ?src = "\<lparr>SourceNamespace = ''default'', SourceName = ''nightly''\<rparr>"
  have 1: "ensureCluster calm (newContext unnamedSource) =
      (Err (Wrap StopRetry (Errorf ''backupSource is required'') ''stop retry''), newContext unnamedSource)"
    using ensureCluster_classifies_validation [of "newContext unnamedSource" "\<lparr>BackupSource = None\<rparr>" calm]
    by (simp add: newContext_def unnamedSource_def restoring_def)
  have 2: "fst (ensureCluster apiTimeout (newContext restoring)) = Err (Wrap Kubernetes (External True ''timeout'') ''Validate'')"
    using ensureCluster_classifies_validation [of "newContext restoring" "\<lparr>BackupSource = Some ?src\<rparr>" apiTimeout
        ?src "External True ''timeout''"]
    by (simp add: newContext_def restoring_def apiTimeout_def calm_def)
  have 3: "fst (ensureCluster backupNotFound (newContext restoring)) = Err (Wrap StopRetry (External False ''not found'') ''stop retry'')"
    using ensureCluster_classifies_validation [of "newContext restoring" "\<lparr>BackupSource = Some ?src\<rparr>" backupNotFound
        ?src "External False ''not found''"]
    by (simp add: newContext_def restoring_def backupNotFound_def calm_def)
  have 4: "fst (ensureCluster backupStillRunning (newContext restoring)) =
        Err (Wrap StopRetry (Errorf ''backup is still running'') ''stop retry'')"
    using ensureCluster_classifies_validation [of "newContext restoring" "\<lparr>BackupSource = Some ?src\<rparr>" backupStillRunning
        ?src _ backupRunning]
    by (simp add: newContext_def restoring_def backupStillRunning_def calm_def backupRunning_def)
  from 1 2 3 4 show ?thesis by simp
qed

text \<open>
  Claim C5 as stated fails: a backup that is still running and a backup record that is
  not found both end in a StopRetry error, not in a retryable one.
\<close>

theorem running_backup_stops_retry:
  "fst (ensureCluster backupStillRunning (newContext restoring))
     = Err (Wrap StopRetry (Errorf ''backup is still running'') ''stop retry'')
   \<and> fst (ensureCluster backupNotFound (newContext restoring))
     = Err (Wrap StopRetry (External False ''not found'') ''stop retry'')"
  by (simp add: ensureCluster_def validate_def Let_def backupStillRunning_def backupNotFound_def calm_def restoring_def newContext_def backupRunning_def)

text \<open>
  Claim C6, as amended. For a spec that asks for initialisation from a backup in the
  succeeded phase, validate takes the master count from the backup, the replica count
  from the backup when the restore counter is positive and zero otherwise, and the image
  from the backup only when the spec names no image; it then hands the cluster to the
  cluster's own Validate method.
\<close>

theorem validate_restores_from_backup:
  assumes "Init (Spec cl) = Some initSpec" and "BackupSource initSpec = Some src"
    and "GetRedisClusterBackup_result env t (SourceNamespace src) (SourceName src) = Inr backup"
    and "Phase (BackupStatus backup) = BackupPhaseSucceeded"
  shows "validate env cl t =
      (OK,
       clusterValidate env (cl\<lparr>Spec := (Spec cl)\<lparr>
          Image' := (if Image' (Spec cl) = [] then ClusterImage (BackupStatus backup) else Image' (Spec cl)),
          MasterSize := BackupMasterSize (BackupStatus backup),
          ClusterReplicas := (if sint (RestoreSucceeded (Status cl)) \<le> 0 then 0
                              else BackupClusterReplicas (BackupStatus backup))\<rparr>\<rparr>),
       t @ [GetRedisClusterBackup (SourceNamespace src) (SourceName src), ClusterValidate])"
  using assms by (rule validate_succeeded)

theorem validate_restores_from_backup_witness:
  "validate calm restoring [] =
     (OK, restoring\<lparr>Spec := (Spec restoring)\<lparr>Image' := ''redis:5'', MasterSize := 5, ClusterReplicas := 0\<rparr>\<rparr>,
      [GetRedisClusterBackup ''default'' ''nightly'', ClusterValidate])"
  using validate_restores_from_backup [of restoring
      "\<lparr>BackupSource = Some \<lparr>SourceNamespace = ''default'', SourceName = ''nightly''\<rparr>\<rparr>"
      "\<lparr>SourceNamespace = ''default'', SourceName = ''nightly''\<rparr>" calm "[]" backupDone]
  by (simp add: calm_def restoring_def backupDone_def)

text \<open>
  Claim C6 as stated fails for the image: a spec that names an image keeps it, whatever
  image the succeeded backup records.
\<close>

theorem validate_keeps_named_image:
  "Image' (Spec restoring) = ''redis:5'' \<and> ClusterImage (BackupStatus backupDone) = ''redis:6''
   \<and> Phase (BackupStatus backupDone) = BackupPhaseSucceeded
   \<and> fst (validate calm restoring []) = OK
   \<and> Image' (Spec (fst (snd (validate calm restoring [])))) = ''redis:5''"
  by (simp add: validate_def calm_def restoring_def backupDone_def)

subsection \<open>waitForClusterJoin\<close>

lemma firstNodeOf_in_snapshot:
  "firstNodeOf infos = Some node \<Longrightarrow> \<exists>entry. entry \<in> set (Infos infos) \<and> InfoNode (snd entry) = Some node"
  by (cases "Infos infos") (auto simp add: firstNodeOf_def)

lemma waitForClusterJoin_joined:
  "errOf env (trace ctx) GetClusterInfos = None \<Longrightarrow>
      waitForClusterJoin env ctx =
        (OK, ctx\<lparr>trace := trace ctx @ [GetClusterInfos, Debug ''debug waitForClusterJoin'']\<rparr>)"
  by (simp add: waitForClusterJoin_def Let_def)

lemma waitForClusterJoin_refused:
  "errOf env (trace ctx) GetClusterInfos = Some err0 \<Longrightarrow> firstNodeOf (clusterInfos ctx) = Some node \<Longrightarrow>
   errOf env (trace ctx @ [GetClusterInfos, Info ''>>> Sending CLUSTER MEET messages to join the cluster''])
      (AttachNodeToCluster (IPPort env node)) = Some err \<Longrightarrow>
   waitForClusterJoin env ctx =
     (Err (Wrap Redis err ''AttachNodeToCluster''),
      ctx\<lparr>trace := trace ctx @ [GetClusterInfos, Info ''>>> Sending CLUSTER MEET messages to join the cluster'',
         AttachNodeToCluster (IPPort env node)]\<rparr>)"
  by (simp add: waitForClusterJoin_def Let_def wrapped_def)

lemma waitForClusterJoin_met:
  "errOf env (trace ctx) GetClusterInfos = Some err0 \<Longrightarrow> firstNodeOf (clusterInfos ctx) = Some node \<Longrightarrow>
   errOf env (trace ctx @ [GetClusterInfos, Info ''>>> Sending CLUSTER MEET messages to join the cluster''])
      (AttachNodeToCluster (IPPort env node)) = None \<Longrightarrow>
   waitForClusterJoin env ctx =
     ((case errOf env (trace ctx @ [GetClusterInfos, Info ''>>> Sending CLUSTER MEET messages to join the cluster'',
               AttachNodeToCluster (IPPort env node), Sleep (1 * Second)]) GetClusterInfos of
         None \<Rightarrow> OK
       | Some err \<Rightarrow> Err (Wrap Requeue err ''wait for cluster join'')),
      ctx\<lparr>trace := trace ctx @ [GetClusterInfos, Info ''>>> Sending CLUSTER MEET messages to join the cluster'',
         AttachNodeToCluster (IPPort env node), Sleep (1 * Second), GetClusterInfos]\<rparr>)"
  by (simp add: waitForClusterJoin_def Let_def wrapped_def split: option.splits)

text \<open>
  Claim C8, as amended. When the topology query succeeds, waitForClusterJoin returns nil and
  issues nothing beyond that query and a debug log line. When the query fails and the
  snapshot yields a node, that node is an entry of the snapshot and exactly one join request
  is issued against its address; if the join request fails the result is a Redis error,
  with no sleep and no second query; if it succeeds the function sleeps one second, queries
  the topology once more and returns a Requeue error exactly when that query fails.
\<close>

theorem waitForClusterJoin_cases:
  "(errOf env (trace ctx) GetClusterInfos = None \<longrightarrow>
      waitForClusterJoin env ctx =
        (OK, ctx\<lparr>trace := trace ctx @ [GetClusterInfos, Debug ''debug waitForClusterJoin'']\<rparr>))
   \<and> (errOf env (trace ctx) GetClusterInfos \<noteq> None \<and> firstNodeOf (clusterInfos ctx) = Some node
       \<and> t1 = trace ctx @ [GetClusterInfos, Info ''>>> Sending CLUSTER MEET messages to join the cluster'']
       \<and> join = AttachNodeToCluster (IPPort env node) \<longrightarrow>
        (\<exists>entry. entry \<in> set (Infos (clusterInfos ctx)) \<and> InfoNode (snd entry) = Some node)
        \<and> (\<forall>err. errOf env t1 join = Some err \<longrightarrow>
              waitForClusterJoin env ctx = (Err (Wrap Redis err ''AttachNodeToCluster''), ctx\<lparr>trace := t1 @ [join]\<rparr>))
        \<and> (errOf env t1 join = None \<longrightarrow>
              waitForClusterJoin env ctx =
                ((case errOf env (t1 @ [join, Sleep (1 * Second)]) GetClusterInfos of
                     None \<Rightarrow> OK
                   | Some err \<Rightarrow> Err (Wrap Requeue err ''wait for cluster join'')),
                 ctx\<lparr>trace := t1 @ [join, Sleep (1 * Second), GetClusterInfos]\<rparr>)))"
proof (intro conjI impI allI)
  assume "errOf env (trace ctx) GetClusterInfos = None"
  then show "waitForClusterJoin env ctx =
        (OK, ctx\<lparr>trace := trace ctx @ [GetClusterInfos, Debug ''debug waitForClusterJoin'']\<rparr>)"
    by (rule waitForClusterJoin_joined)
next
  assume a: "errOf env (trace ctx) GetClusterInfos \<noteq> None \<and> firstNodeOf (clusterInfos ctx) = Some node
       \<and> t1 = trace ctx @ [GetClusterInfos, Info ''>>> Sending CLUSTER MEET messages to join the cluster'']
       \<and> join = AttachNodeToCluster (IPPort env node)"
  then show "\<exists>entry. entry \<in> set (Infos (clusterInfos ctx)) \<and> InfoNode (snd entry) = Some node"
    using firstNodeOf_in_snapshot by blast
next
  fix err
  assume a: "errOf env (trace ctx) GetClusterInfos \<noteq> None \<and> firstNodeOf (clusterInfos ctx) = Some node
       \<and> t1 = trace ctx @ [GetClusterInfos, Info ''>>> Sending CLUSTER MEET messages to join the cluster'']
       \<and> join = AttachNodeToCluster (IPPort env node)"
    and b: "errOf env t1 join = Some err"
  from a obtain err0 where "errOf env (trace ctx) GetClusterInfos = Some err0" by blast
  with a b show "waitForClusterJoin env ctx = (Err (Wrap Redis err ''AttachNodeToCluster''), ctx\<lparr>trace := t1 @ [join]\<rparr>)"
    using waitForClusterJoin_refused [of env ctx err0 node err] by simp
next
  assume a: "errOf env (trace ctx) GetClusterInfos \<noteq> None \<and> firstNodeOf (clusterInfos ctx) = Some node
       \<and> t1 = trace ctx @ [GetClusterInfos, Info ''>>> Sending CLUSTER MEET messages to join the cluster'']
       \<and> join = AttachNodeToCluster (IPPort env node)"
    and b: "errOf env t1 join = None"
  from a obtain err0 where "errOf env (trace ctx) GetClusterInfos = Some err0" by blast
  with a b show "waitForClusterJoin env ctx =
                ((case errOf env (t1 @ [join, Sleep (1 * Second)]) GetClusterInfos of
                     None \<Rightarrow> OK
                   | Some err \<Rightarrow> Err (Wrap Requeue err ''wait for cluster join'')),
                 ctx\<lparr>trace := t1 @ [join, Sleep (1 * Second), GetClusterInfos]\<rparr>)"
    using waitForClusterJoin_met [of env ctx err0 node] by simp
qed

theorem waitForClusterJoin_cases_witness:
  "waitForClusterJoin calm (snapshot restoring) =
      (OK, (snapshot restoring)\<lparr>trace := [GetClusterInfos, Debug ''debug waitForClusterJoin'']\<rparr>)
   \<and> waitForClusterJoin joinRefused (snapshot restoring) =
      (Err (Wrap Redis (External False ''refused'') ''AttachNodeToCluster''),
       (snapshot restoring)\<lparr>trace := [GetClusterInfos,
           Info ''>>> Sending CLUSTER MEET messages to join the cluster'',
           AttachNodeToCluster ''10.0.0.1:6379'']\<rparr>)
   \<and> waitForClusterJoin notJoined (snapshot restoring) =
      (Err (Wrap Requeue (External False ''cluster down'') ''wait for cluster join''),
       (snapshot restoring)\<lparr>trace := [GetClusterInfos,
           Info ''>>> Sending CLUSTER MEET messages to join the cluster'',
           AttachNodeToCluster ''10.0.0.1:6379'', Sleep (1 * Second), GetClusterInfos]\<rparr>)
   \<and> waitForClusterJoin joinsAfterMeet (snapshot restoring) =
      (OK,
       (snapshot restoring)\<lparr>trace := [GetClusterInfos,
           Info ''>>> Sending CLUSTER MEET messages to join the cluster'',
           AttachNodeToCluster ''10.0.0.1:6379'', Sleep (1 * Second), GetClusterInfos]\<rparr>)"
proof -
  let ?t1 = "[GetClusterInfos, Info ''>>> Sending CLUSTER MEET messages to join the cluster'']"
  let ?join = "AttachNodeToCluster ''10.0.0.1:6379''"
  have n: "firstNodeOf (clusterInfos (snapshot restoring)) = Some node0"
    by (simp add: firstNodeOf_def snapshot_def)
  have 1: "waitForClusterJoin calm (snapshot restoring) =
      (OK, (snapshot restoring)\<lparr>trace := [GetClusterInfos, Debug ''debug waitForClusterJoin'']\<rparr>)"
    using waitForClusterJoin_cases [of calm "snapshot restoring" node0 ?t1 ?join]
    by (simp add: calm_def snapshot_def)
  have 2: "waitForClusterJoin joinRefused (snapshot restoring) =
      (Err (Wrap Redis (External False ''refused'') ''AttachNodeToCluster''),
       (snapshot restoring)\<lparr>trace := ?t1 @ [?join]\<rparr>)"
    using waitForClusterJoin_cases [of joinRefused "snapshot restoring" node0 ?t1 ?join] n
    by (simp add: joinRefused_def calm_def snapshot_def node0_def)
  have 3: "waitForClusterJoin notJoined (snapshot restoring) =
      (Err (Wrap Requeue (External False ''cluster down'') ''wait for cluster join''),
       (snapshot restoring)\<lparr>trace := ?t1 @ [?join, Sleep (1 * Second), GetClusterInfos]\<rparr>)"
    using waitForClusterJoin_cases [of notJoined "snapshot restoring" node0 ?t1 ?join] n
    by (simp add: notJoined_def calm_def snapshot_def node0_def)
  have 4: "waitForClusterJoin joinsAfterMeet (snapshot restoring) =
      (OK, (snapshot restoring)\<lparr>trace := ?t1 @ [?join, Sleep (1 * Second), GetClusterInfos]\<rparr>)"
    using waitForClusterJoin_cases [of joinsAfterMeet "snapshot restoring" node0 ?t1 ?join] n
    by (simp add: joinsAfterMeet_def calm_def snapshot_def node0_def)
  from 1 2 3 4 show ?thesis by simp
qed

text \<open>
  Claim C8 as stated fails: when the join request is refused the function returns a Redis
  error at once; it neither sleeps nor queries the topology again.
\<close>

theorem refused_join_is_not_requeued:
  "errOf joinRefused [] GetClusterInfos \<noteq> None
   \<and> waitForClusterJoin joinRefused (snapshot restoring) =
       (Err (Wrap Redis (External False ''refused'') ''AttachNodeToCluster''),
        (snapshot restoring)\<lparr>trace := [GetClusterInfos,
           Info ''>>> Sending CLUSTER MEET messages to join the cluster'',
           AttachNodeToCluster ''10.0.0.1:6379'']\<rparr>)"
  by (simp add: waitForClusterJoin_def firstNodeOf_def wrapped_def Let_def joinRefused_def calm_def snapshot_def node0_def)

text \<open>
  Claim C10. When the topology query fails and the node map of the snapshot is empty, the
  node chosen for the join request is nil, and the function faults at the address of that
  node: it returns no error value, and no join request is issued.
\<close>

theorem waitForClusterJoin_faults_on_empty_snapshot:
  assumes "errOf env (trace ctx) GetClusterInfos = Some err"
    and "Infos (clusterInfos ctx) = []"
  shows "firstNodeOf (clusterInfos ctx) = None
    \<and> waitForClusterJoin env ctx =
        (Panic, ctx\<lparr>trace := trace ctx @
           [GetClusterInfos, Info ''>>> Sending CLUSTER MEET messages to join the cluster'']\<rparr>)"
  using assms by (simp add: waitForClusterJoin_def firstNodeOf_def Let_def)

theorem waitForClusterJoin_faults_on_empty_snapshot_witness:
  "firstNodeOf (clusterInfos (newContext restoring)) = None
    \<and> waitForClusterJoin notJoined (newContext restoring) =
        (Panic, (newContext restoring)\<lparr>trace :=
           [GetClusterInfos, Info ''>>> Sending CLUSTER MEET messages to join the cluster'']\<rparr>)"
  using waitForClusterJoin_faults_on_empty_snapshot [of notJoined "newContext restoring" "External False ''cluster down''"]
  by (simp add: notJoined_def calm_def newContext_def)

subsection \<open>scalingDown\<close>

lemma removeLoop_trace:
  "removeLoop env cl nodes e i t =
     t @ concat (map (\<lambda>j. map (\<lambda>node. ConnectionsRemove (IPPort env node))
                              (nodesOf nodes (ClusterStatefulSetName env (Name cl) j)))
                    (rev [e..i]))"
proof (induction env cl nodes e i t rule: removeLoop.induct)
  case (1 env cl nodes e i t)
  show ?case
  proof (cases "e \<le> i")
    case True
    then have "rev [e..i] = i # rev [e..i - 1]"
      by (simp add: upto_rec2)
    with True "1.IH" show ?thesis
      by (subst removeLoop.simps) simp
  next
    case False
    then show ?thesis
      by (subst removeLoop.simps) simp
  qed
qed

lemma wrapped_filter:
  assumes "\<not> P c" and "\<And>t'. filter P (snd (rest t')) = filter P t'"
  shows "filter P (snd (wrapped env k msg c t rest)) = filter P t"
  using assms by (simp add: wrapped_def split: option.splits)

lemma unwrapped_filter:
  assumes "\<not> P c" and "\<And>t'. filter P (snd (rest t')) = filter P t'"
  shows "filter P (snd (unwrapped env c t rest)) = filter P t"
  using assms by (simp add: unwrapped_def split: option.splits)

lemma logged_filter:
  assumes "\<not> P c" and "\<And>err. \<not> P (LogError err msg)"
  shows "filter P (logged env c msg t) = filter P t"
  using assms by (simp add: logged_def split: option.splits)

lemma forgetLoop_filter:
  assumes "\<not> P (Info ''forgetNode'')" and "\<And>id. \<not> P (ForgetNode id)"
  shows "filter P (snd (forgetLoop env ns t)) = filter P t"
proof (induction ns arbitrary: t)
  case Nil
  show ?case by simp
next
  case (Cons n ns)
  show ?case
    using assms Cons.IH by (simp add: wrapped_def split: option.splits)
qed

lemma removeResources_filter:
  assumes "\<And>ns nm. \<not> P (DeleteStatefulSetByName ns nm)" and "\<And>ns nm. \<not> P (DeleteServiceByName ns nm)"
    and "\<And>ns nm. \<not> P (DeletePodDisruptionBudgetByName ns nm)" and "\<And>ns ls. \<not> P (DeletePvcByLabels ns ls)"
    and "\<And>w. \<not> P (Waiting w)" and "\<And>err msg. \<not> P (LogError err msg)"
  shows "filter P (removeResources env cl i sts t) = filter P t"
  using assms by (simp add: removeResources_def Let_def logged_filter)

lemma forgetLoop_extends: "\<exists>evs. snd (forgetLoop env ns t) = t @ evs"
proof (induction ns arbitrary: t)
  case Nil
  show ?case by simp
next
  case (Cons n ns)
  obtain evs where "snd (forgetLoop env ns (t @ [Info ''forgetNode'', ForgetNode (ID n)])) =
      (t @ [Info ''forgetNode'', ForgetNode (ID n)]) @ evs"
    using Cons.IH by blast
  then show ?case
    by (simp add: wrapped_def split: option.splits)
qed

lemma forgetLoop_steps:
  "\<exists>evs. snd (forgetLoop env ns t) = t @ evs \<and> filter isRemoval evs = [] \<and> filter isGroupStep evs = []"
proof -
  obtain evs where e: "snd (forgetLoop env ns t) = t @ evs"
    using forgetLoop_extends by blast
  have "filter isRemoval (snd (forgetLoop env ns t)) = filter isRemoval t"
    by (rule forgetLoop_filter) simp_all
  moreover have "filter isGroupStep (snd (forgetLoop env ns t)) = filter isGroupStep t"
    by (rule forgetLoop_filter) simp_all
  ultimately show ?thesis using e by simp
qed

lemma removeResources_steps:
  "\<exists>evs. removeResources env cl i sts t = t @ evs \<and> filter isRemoval evs = []
     \<and> map unlabelled (filter isGroupStep evs) = deletionsOf env cl i"
  by (simp add: removeResources_def Let_def logged_def deletionsOf_def split: option.splits)

lemma retireLoop_steps:
  "\<exists>evs. snd (retireLoop env cl nodes e i t) = t @ evs \<and> filter isRemoval evs = []
     \<and> prefix (map unlabelled (filter isGroupStep evs)) (retirementSteps env cl (rev [e..i]))
     \<and> (fst (retireLoop env cl nodes e i t) = OK \<longrightarrow>
          map unlabelled (filter isGroupStep evs) = retirementSteps env cl (rev [e..i]))"
proof (induction env cl nodes e i t rule: retireLoop.induct)
  case (1 env cl nodes e i t)
  show ?case
  proof (cases "e \<le> i")
    case False
    then show ?thesis
      by (subst (1 2) retireLoop.simps) (simp add: retirementSteps_def)
  next
    case True
    let ?x = "ClusterStatefulSetName env (Name cl) i"
    let ?xa = "t @ [Info ''scaling down'']"
    let ?G = "GetStatefulSet (Namespace cl) ?x"
    let ?D = "deletionsOf env cl i"
    from True have steps: "retirementSteps env cl (rev [e..i]) = ?G # ?D @ retirementSteps env cl (rev [e..i - 1])"
      by (simp add: retirementSteps_def lookupOf_def upto_rec2)
    show ?thesis
    proof (cases "GetStatefulSet_result env ?xa (Namespace cl) ?x")
      case (Inl err)
      with True have "retireLoop env cl nodes e i t = (Err (Wrap Kubernetes err ''GetStatefulSet''), t @ [Info ''scaling down'', ?G])"
        by (subst retireLoop.simps) (simp add: Let_def)
      then show ?thesis
        by (simp add: steps)
    next
      case (Inr sts)
      obtain out y where f: "forgetLoop env (nodesOf nodes ?x) (?xa @ [?G]) = (out, y)"
        by (cases "forgetLoop env (nodesOf nodes ?x) (?xa @ [?G])") auto
      obtain fevs where y: "y = (?xa @ [?G]) @ fevs" and fr: "filter isRemoval fevs = []"
        and fg: "filter isGroupStep fevs = []"
        using forgetLoop_steps [of env "nodesOf nodes ?x" "?xa @ [?G]"] f by auto
      show ?thesis
      proof (cases "out = OK")
        case False
        with True Inr f have "retireLoop env cl nodes e i t = (out, y)"
          by (subst retireLoop.simps) (cases out; simp add: Let_def)
        with False y fr fg show ?thesis
          by (simp add: steps)
      next
        case ok: True
        obtain revs where r: "removeResources env cl i sts y = y @ revs" and rr: "filter isRemoval revs = []"
          and rg: "map unlabelled (filter isGroupStep revs) = ?D"
          using removeResources_steps [of env cl i sts y] by blast
        from True Inr f ok have unfold: "retireLoop env cl nodes e i t =
            retireLoop env cl nodes e (i - 1) (removeResources env cl i sts y)"
          by (subst retireLoop.simps) (simp add: Let_def)
        obtain evs where
          ih1: "snd (retireLoop env cl nodes e (i - 1) (removeResources env cl i sts y)) =
                 removeResources env cl i sts y @ evs"
          and ih2: "filter isRemoval evs = []"
          and ih3: "prefix (map unlabelled (filter isGroupStep evs)) (retirementSteps env cl (rev [e..i - 1]))"
          and ih4: "fst (retireLoop env cl nodes e (i - 1) (removeResources env cl i sts y)) = OK \<longrightarrow>
                 map unlabelled (filter isGroupStep evs) = retirementSteps env cl (rev [e..i - 1])"
          using "1.IH" [OF True refl refl Inr f [symmetric] ok] by blast
        let ?E = "[Info ''scaling down'', ?G] @ fevs @ revs @ evs"
        have a: "snd (retireLoop env cl nodes e i t) = t @ ?E"
          using unfold ih1 r y by simp
        have b: "filter isRemoval ?E = []"
          using fr rr ih2 by simp
        have g: "map unlabelled (filter isGroupStep ?E) = ?G # ?D @ map unlabelled (filter isGroupStep evs)"
          using fg rg by simp
        have c: "prefix (map unlabelled (filter isGroupStep ?E)) (retirementSteps env cl (rev [e..i]))"
          unfolding g steps using ih3 by simp
        have d: "fst (retireLoop env cl nodes e i t) = OK \<longrightarrow>
            map unlabelled (filter isGroupStep ?E) = retirementSteps env cl (rev [e..i])"
          unfolding g steps unfold using ih4 by simp
        from a b c d show ?thesis by blast
      qed
    qed
  qed
qed

lemma scalingDown_unfold:
  "scalingDown env ctx cur nodes =
     (fst (retireLoop env (cluster ctx) nodes (sint (MasterSize (Spec (cluster ctx)))) (cur - 1)
            (trace ctx @ removals env (cluster ctx) nodes (retiring cur (sint (MasterSize (Spec (cluster ctx))))))),
      ctx\<lparr>trace := snd (retireLoop env (cluster ctx) nodes (sint (MasterSize (Spec (cluster ctx)))) (cur - 1)
            (trace ctx @ removals env (cluster ctx) nodes (retiring cur (sint (MasterSize (Spec (cluster ctx)))))))\<rparr>)"
  by (simp add: scalingDown_def Let_def split_beta removeLoop_trace removals_def retiring_def)

lemma removals_all: "list_all isRemoval (removals env cl nodes js)"
  by (auto simp add: removals_def list_all_iff)

text \<open>
  Claim C7. The trace of scalingDown is the trace before it, then the removal from the
  connection pool of every node of every retiring group, the groups in descending ordinal
  order from the current master count minus one down to the target master count, then a
  second pass that holds no removal: every forget-node request and every deletion comes
  after all removals. In the second pass the stateful sets are looked up and the resources
  deleted in that same descending order, group after group; the groups handled are a
  prefix of the order when the operation stops with an error, and all of them when it
  returns nil.
\<close>

theorem scalingDown_two_passes:
  "\<exists>pass2.
     trace (snd (scalingDown env ctx currentMasterNum statefulSetNodes)) =
       trace ctx
       @ removals env (cluster ctx) statefulSetNodes
           (retiring currentMasterNum (sint (MasterSize (Spec (cluster ctx)))))
       @ pass2
     \<and> list_all isRemoval (removals env (cluster ctx) statefulSetNodes
           (retiring currentMasterNum (sint (MasterSize (Spec (cluster ctx))))))
     \<and> filter isRemoval pass2 = []
     \<and> prefix (map unlabelled (filter isGroupStep pass2))
         (retirementSteps env (cluster ctx) (retiring currentMasterNum (sint (MasterSize (Spec (cluster ctx))))))
     \<and> (fst (scalingDown env ctx currentMasterNum statefulSetNodes) = OK \<longrightarrow>
          map unlabelled (filter isGroupStep pass2) =
            retirementSteps env (cluster ctx) (retiring currentMasterNum (sint (MasterSize (Spec (cluster ctx))))))"
  using retireLoop_steps [of env "cluster ctx" statefulSetNodes "sint (MasterSize (Spec (cluster ctx)))"
      "currentMasterNum - 1"
      "trace ctx @ removals env (cluster ctx) statefulSetNodes
           (retiring currentMasterNum (sint (MasterSize (Spec (cluster ctx)))))"]
  by (simp add: scalingDown_unfold retiring_def removals_all)





lemmas scaling_examples = scalingDown_def Let_def removeLoop.simps retireLoop.simps removeResources_def
  logged_def wrapped_def nodesOf_def notEmptyMessage_def podTerminatingWaiter_def
  calm_def lookupFails_def newContext_def shrinking_def loadedGroups_def drainedGroups_def
  masterB_def masterC_def replicaB_def exampleName_def


text \<open>
  The theorem of claim C7 at three groups shrinking to one, all nodes drained.
\<close>

theorem scalingDown_two_passes_witness:
  "\<exists>pass2.
     trace (snd (scalingDown calm (newContext shrinking) 3 drainedGroups)) =
       [ConnectionsRemove ''10.0.2.1:6379'', ConnectionsRemove ''10.0.1.2:6379'', ConnectionsRemove ''10.0.1.1:6379'']
       @ pass2
     \<and> filter isRemoval pass2 = []
     \<and> map unlabelled (filter isGroupStep pass2) =
         [GetStatefulSet ''default'' ''drc-2'', DeleteStatefulSetByName ''default'' ''drc-2'',
          DeleteServiceByName ''default'' ''drc-2'', DeletePodDisruptionBudgetByName ''default'' ''drc-2'',
          DeletePvcByLabels ''default'' [],
          GetStatefulSet ''default'' ''drc-1'', DeleteStatefulSetByName ''default'' ''drc-1'',
          DeleteServiceByName ''default'' ''drc-1'', DeletePodDisruptionBudgetByName ''default'' ''drc-1'',
          DeletePvcByLabels ''default'' []]"
proof -
  have ok: "fst (scalingDown calm (newContext shrinking) 3 drainedGroups) = OK"
    by (simp add: scaling_examples)
  have r: "retiring 3 (sint (MasterSize (Spec (cluster (newContext shrinking))))) = [2, 1]"
    by (simp add: retiring_def newContext_def shrinking_def upto_rec1)
  have rem: "removals calm (cluster (newContext shrinking)) drainedGroups [2, 1] =
      [ConnectionsRemove ''10.0.2.1:6379'', ConnectionsRemove ''10.0.1.2:6379'', ConnectionsRemove ''10.0.1.1:6379'']"
    by (simp add: removals_def scaling_examples)
  have st: "retirementSteps calm (cluster (newContext shrinking)) [2, 1] =
      [GetStatefulSet ''default'' ''drc-2'', DeleteStatefulSetByName ''default'' ''drc-2'',
       DeleteServiceByName ''default'' ''drc-2'', DeletePodDisruptionBudgetByName ''default'' ''drc-2'',
       DeletePvcByLabels ''default'' [],
       GetStatefulSet ''default'' ''drc-1'', DeleteStatefulSetByName ''default'' ''drc-1'',
       DeleteServiceByName ''default'' ''drc-1'', DeletePodDisruptionBudgetByName ''default'' ''drc-1'',
       DeletePvcByLabels ''default'' []]"
    by (simp add: retirementSteps_def lookupOf_def deletionsOf_def scaling_examples)
  have tr: "trace (newContext shrinking) = []"
    by (simp add: newContext_def)
  show ?thesis
    using scalingDown_two_passes [of calm "newContext shrinking" 3 drainedGroups] ok
    unfolding r rem st tr by auto
qed






subsection \<open>syncCluster\<close>

lemma removals_filter:
  assumes "\<And>addr. \<not> P (ConnectionsRemove addr)"
  shows "filter P (removals env cl nodes js) = []"
proof (induction js)
  case Nil
  show ?case by (simp add: removals_def)
next
  case (Cons j js)
  have "filter P (map (\<lambda>node. ConnectionsRemove (IPPort env node)) ns) = []" for ns
    using assms by (induction ns) simp_all
  with Cons show ?case by (simp add: removals_def)
qed

lemma retireLoop_filter:
  assumes "\<not> P (Info ''scaling down'')" and "\<And>ns nm. \<not> P (GetStatefulSet ns nm)"
    and "\<not> P (Info ''forgetNode'')" and "\<And>id. \<not> P (ForgetNode id)"
    and "\<And>ns nm. \<not> P (DeleteStatefulSetByName ns nm)" and "\<And>ns nm. \<not> P (DeleteServiceByName ns nm)"
    and "\<And>ns nm. \<not> P (DeletePodDisruptionBudgetByName ns nm)" and "\<And>ns ls. \<not> P (DeletePvcByLabels ns ls)"
    and "\<And>w. \<not> P (Waiting w)" and "\<And>err msg. \<not> P (LogError err msg)"
  shows "filter P (snd (retireLoop env cl nodes e i t)) = filter P t"
proof (induction env cl nodes e i t rule: retireLoop.induct)
  case (1 env cl nodes e i t)
  show ?case
  proof (cases "e \<le> i")
    case False
    then show ?thesis by (subst retireLoop.simps) simp
  next
    case True
    let ?x = "ClusterStatefulSetName env (Name cl) i"
    let ?t1 = "t @ [Info ''scaling down'']"
    let ?G = "GetStatefulSet (Namespace cl) ?x"
    show ?thesis
    proof (cases "GetStatefulSet_result env ?t1 (Namespace cl) ?x")
      case (Inl err)
      with True show ?thesis
        using assms(1,2) by (subst retireLoop.simps) (simp add: Let_def)
    next
      case (Inr sts)
      obtain out y where f: "forgetLoop env (nodesOf nodes ?x) (?t1 @ [?G]) = (out, y)"
        by (cases "forgetLoop env (nodesOf nodes ?x) (?t1 @ [?G])") auto
      have "filter P (snd (forgetLoop env (nodesOf nodes ?x) (?t1 @ [?G]))) = filter P (?t1 @ [?G])"
        using assms(3,4) by (rule forgetLoop_filter)
      with f have y: "filter P y = filter P t"
        using assms(1,2) by simp
      show ?thesis
      proof (cases "out = OK")
        case False
        with True Inr f have "retireLoop env cl nodes e i t = (out, y)"
          by (subst retireLoop.simps) (cases out; simp add: Let_def)
        with y show ?thesis by simp
      next
        case ok: True
        have r: "filter P (removeResources env cl i sts y) = filter P y"
          using assms(5-10) by (rule removeResources_filter)
        from True Inr f ok have "retireLoop env cl nodes e i t =
            retireLoop env cl nodes e (i - 1) (removeResources env cl i sts y)"
          by (subst retireLoop.simps) (simp add: Let_def)
        then show ?thesis
          using "1.IH" [OF True refl refl Inr f [symmetric] ok] r y by simp
      qed
    qed
  qed
qed

lemma scalingDown_branch_free:
  "filter isBranch (trace (snd (scalingDown env ctx cur nodes))) = filter isBranch (trace ctx)"
proof -
  have "filter isBranch (snd (retireLoop env cl nodes e i t)) = filter isBranch t" for cl e i t
    by (rule retireLoop_filter) simp_all
  moreover have "filter isBranch (removals env cl nodes js) = []" for cl js
    by (rule removals_filter) simp
  ultimately show ?thesis
    by (simp add: scalingDown_unfold)
qed

lemma wrapped_branch_free:
  assumes "\<not> isBranch c" and "\<And>t'. filter isBranch (snd (rest t')) = filter isBranch t'"
  shows "filter isBranch (snd (wrapped env k msg c t rest)) = filter isBranch t"
  using assms by (rule wrapped_filter)

lemma unwrapped_branch_free:
  assumes "\<not> isBranch c" and "\<And>t'. filter isBranch (snd (rest t')) = filter isBranch t'"
  shows "filter isBranch (snd (unwrapped env c t rest)) = filter isBranch t"
  using assms by (rule unwrapped_filter)

text \<open>
  Claim C2, as amended. When the plan is computed without error, syncCluster opens exactly
  the first branch whose condition holds, in this order: bootstrap when there are no
  current masters; scale-up when the new masters outnumber the current masters;
  scale-replicas when the observed replication factor is below the replica count of the
  spec; scale-down when the current masters outnumber the master count of the spec; and
  no branch otherwise. So the scale-replicas branch runs exactly when there are current
  masters, the new masters do not outnumber them, and the replication factor is below
  the replica count, also while the current masters exceed the target. When the plan
  fails, no branch is opened.
\<close>

theorem syncCluster_runs_first_matching_branch:
  "filter isBranch (trace (snd (syncCluster env ctx))) =
     filter isBranch (trace ctx) @
     (if errOf env (trace ctx) NewRedisCluster = None
         \<and> errOf env (trace ctx @ [NewRedisCluster]) DispatchMasters = None
      then
        (if length (GetCurrentMasters env (trace ctx @ [NewRedisCluster, DispatchMasters])) = 0
         then [Info ''Creating cluster'']
         else if length (GetNewMasters env (trace ctx @ [NewRedisCluster, DispatchMasters]))
                 > length (GetCurrentMasters env (trace ctx @ [NewRedisCluster, DispatchMasters]))
         then [Info ''Scaling up'']
         else if sint (MinReplicationFactor (Status (cluster ctx))) < sint (ClusterReplicas (Spec (cluster ctx)))
         then [Info ''Scaling slave'']
         else if int (length (GetCurrentMasters env (trace ctx @ [NewRedisCluster, DispatchMasters])))
                 > sint (MasterSize (Spec (cluster ctx)))
         then [Info ''Scaling down'']
         else [])
      else [])"
proof (cases "errOf env (trace ctx) NewRedisCluster")
  case (Some err)
  then show ?thesis
    by (simp add: syncCluster_def Let_def wrapped_def)
next
  case n1: None
  show ?thesis
  proof (cases "errOf env (trace ctx @ [NewRedisCluster]) DispatchMasters")
    case (Some err)
    with n1 show ?thesis
      by (simp add: syncCluster_def Let_def wrapped_def)
  next
    case n2: None
    let ?t2 = "trace ctx @ [NewRedisCluster, DispatchMasters]"
    have sd: "filter isBranch (snd (case scalingDown env (ctx\<lparr>trace := t4\<rparr>) cur nodes of
                                      (out, ctx') \<Rightarrow> (out, trace ctx'))) = filter isBranch t4" for t4 cur nodes
      using scalingDown_branch_free [of env "ctx\<lparr>trace := t4\<rparr>" cur nodes] by (simp add: split_beta)
    have unfold: "snd (syncCluster env ctx) = ctx\<lparr>trace := snd (
          let curMasters = GetCurrentMasters env ?t2;
              newMasters = GetNewMasters env ?t2;
              t3 = ?t2 @ [Info ''masters'']
          in
            if length curMasters = 0 then
              wrapped env Cluster ''PlaceSlaves'' PlaceSlaves (t3 @ [Info ''Creating cluster'']) (\<lambda>t4.
              wrapped env Cluster ''AttachingSlavesToMaster'' AttachingSlavesToMaster t4 (\<lambda>t5.
              wrapped env Cluster ''AllocSlots'' (AllocSlots newMasters) t5 (\<lambda>t6. (OK, t6))))
            else if length newMasters > length curMasters then
              wrapped env Cluster ''PlaceSlaves'' PlaceSlaves (t3 @ [Info ''Scaling up'']) (\<lambda>t4.
              wrapped env Cluster ''AttachingSlavesToMaster'' AttachingSlavesToMaster t4 (\<lambda>t5.
              wrapped env Cluster ''RebalancedCluster'' (RebalancedCluster newMasters) t5 (\<lambda>t6. (OK, t6))))
            else if sint (MinReplicationFactor (Status (cluster ctx))) < sint (ClusterReplicas (Spec (cluster ctx))) then
              wrapped env Cluster ''PlaceSlaves'' PlaceSlaves (t3 @ [Info ''Scaling slave'']) (\<lambda>t4.
              wrapped env Cluster ''AttachingSlavesToMaster'' AttachingSlavesToMaster t4 (\<lambda>t5. (OK, t5)))
            else if int (length curMasters) > sint (MasterSize (Spec (cluster ctx))) then
              (let allMaster = newMasters @ curMasters in
               unwrapped env (DispatchSlotToNewMasters newMasters curMasters allMaster)
                 (t3 @ [Info ''Scaling down'']) (\<lambda>t4.
                   case scalingDown env (ctx\<lparr>trace := t4\<rparr>) (int (length curMasters))
                          (GetStatefulsetNodes env t4) of
                     (out, ctx') \<Rightarrow> (out, trace ctx')))
            else (OK, t3))\<rparr>"
      using n1 n2 by (simp add: syncCluster_def Let_def wrapped_def split_beta)
    show ?thesis
      unfolding unfold using n1 n2
      by (simp add: Let_def wrapped_branch_free unwrapped_branch_free sd)
  qed
qed

text \<open>
  The theorem of claim C2 at a cluster with three current masters and at an empty one.
\<close>

theorem syncCluster_runs_first_matching_branch_witness:
  "filter isBranch (trace (snd (syncCluster tooManyMasters (newContext wantsReplica)))) = [Info ''Scaling slave'']
   \<and> filter isBranch (trace (snd (syncCluster calm (newContext wantsReplica)))) = [Info ''Creating cluster'']"
proof -
  have 1: "filter isBranch (trace (snd (syncCluster tooManyMasters (newContext wantsReplica)))) = [Info ''Scaling slave'']"
    using syncCluster_runs_first_matching_branch [of tooManyMasters "newContext wantsReplica"]
    by (simp add: tooManyMasters_def calm_def newContext_def wantsReplica_def)
  have 2: "filter isBranch (trace (snd (syncCluster calm (newContext wantsReplica)))) = [Info ''Creating cluster'']"
    using syncCluster_runs_first_matching_branch [of calm "newContext wantsReplica"]
    by (simp add: calm_def newContext_def wantsReplica_def)
  from 1 2 show ?thesis by simp
qed

text \<open>
  Claim C2 as stated fails: with three current masters, a plan of two new masters, a
  master count of two in the spec and a replication factor below the replica count, the
  scale-replicas branch runs although the target master count differs from the current
  one.
\<close>

theorem scales_replicas_while_masters_exceed_target:
  "length (GetCurrentMasters tooManyMasters [NewRedisCluster, DispatchMasters]) = 3
   \<and> length (GetNewMasters tooManyMasters [NewRedisCluster, DispatchMasters]) = 2
   \<and> sint (MasterSize (Spec wantsReplica)) = 2
   \<and> syncCluster tooManyMasters (newContext wantsReplica) =
       (OK, (newContext wantsReplica)\<lparr>trace := [NewRedisCluster, DispatchMasters, Info ''masters'',
          Info ''Scaling slave'', PlaceSlaves, AttachingSlavesToMaster]\<rparr>)"
  by (simp add: syncCluster_def Let_def wrapped_def tooManyMasters_def calm_def wantsReplica_def newContext_def)

subsection \<open>The wait of ensureCluster\<close>

lemma ensureEndpoints_events:
  "\<exists>evs. snd (ensureEndpoints env t) = t @ evs \<and> filter isWaiting evs = []
     \<and> EnsureRedisStatefulsets \<notin> set evs"
  by (simp add: ensureEndpoints_def wrapped_def split: option.splits)

lemma ensureResources_events:
  "\<exists>evs. snd (ensureResources env cl t) = t @ evs
     \<and> filter isWaiting evs =
         (if EnsureRedisStatefulsets \<in> set evs
             \<and> EnsureRedisStatefulsets_result env (t @ takeWhile (\<lambda>e. e \<noteq> EnsureRedisStatefulsets) evs) = Inr True
          then [Waiting (statefulSetWaiter cl)] else [])"
proof (cases "errOf env t EnsureRedisConfigMap")
  case (Some err)
  then show ?thesis
    by (simp add: ensureResources_def wrapped_def)
next
  case None
  let ?t1 = "t @ [EnsureRedisConfigMap]"
  let ?t2 = "?t1 @ [EnsureRedisStatefulsets]"
  show ?thesis
  proof (cases "EnsureRedisStatefulsets_result env ?t1")
    case (Inl err)
    with None show ?thesis
      by (simp add: ensureResources_def wrapped_def)
  next
    case (Inr updated)
    show ?thesis
    proof (cases updated)
      case False
      obtain evs where e: "snd (ensureEndpoints env ?t2) = ?t2 @ evs" and w: "filter isWaiting evs = []"
        and n: "EnsureRedisStatefulsets \<notin> set evs"
        using ensureEndpoints_events by blast
      from None Inr False e have "snd (ensureResources env cl t) =
          t @ ([EnsureRedisConfigMap, EnsureRedisStatefulsets] @ evs)"
        by (simp add: ensureResources_def wrapped_def)
      moreover have "filter isWaiting ([EnsureRedisConfigMap, EnsureRedisStatefulsets] @ evs) = []"
        using w by simp
      moreover have "EnsureRedisStatefulsets_result env
          (t @ takeWhile (\<lambda>e. e \<noteq> EnsureRedisStatefulsets) ([EnsureRedisConfigMap, EnsureRedisStatefulsets] @ evs))
          \<noteq> Inr True"
        using Inr False by simp
      ultimately show ?thesis by (metis (full_types))
    next
      case True
      let ?w = "Waiting (statefulSetWaiter cl)"
      have tw: "EnsureRedisStatefulsets_result env
          (t @ takeWhile (\<lambda>e. e \<noteq> EnsureRedisStatefulsets) ([EnsureRedisConfigMap, EnsureRedisStatefulsets, ?w] @ evs))
          = Inr True" for evs
        using Inr True by simp
      show ?thesis
      proof (cases "errOf env ?t2 ?w")
        case (Some err)
        with None Inr True have "snd (ensureResources env cl t) =
            t @ ([EnsureRedisConfigMap, EnsureRedisStatefulsets, ?w] @ [])"
          by (simp add: ensureResources_def wrapped_def unwrapped_def)
        moreover have "filter isWaiting ([EnsureRedisConfigMap, EnsureRedisStatefulsets, ?w] @ []) = [?w]"
          by simp
        moreover have "EnsureRedisStatefulsets \<in> set ([EnsureRedisConfigMap, EnsureRedisStatefulsets, ?w] @ [])"
          by simp
        ultimately show ?thesis using tw [of "[]"] by (metis (full_types))
      next
        case n3: None
        obtain evs where e: "snd (ensureEndpoints env (?t2 @ [?w])) = (?t2 @ [?w]) @ evs"
          and w: "filter isWaiting evs = []"
          using ensureEndpoints_events by blast
        from None Inr True n3 e have "snd (ensureResources env cl t) =
            t @ ([EnsureRedisConfigMap, EnsureRedisStatefulsets, ?w] @ evs)"
          by (simp add: ensureResources_def wrapped_def unwrapped_def)
        moreover have "filter isWaiting ([EnsureRedisConfigMap, EnsureRedisStatefulsets, ?w] @ evs) = [?w]"
          using w by simp
        moreover have "EnsureRedisStatefulsets \<in> set ([EnsureRedisConfigMap, EnsureRedisStatefulsets, ?w] @ evs)"
          by simp
        ultimately show ?thesis using tw [of evs] by (metis (full_types))
      qed
    qed
  qed
qed

lemma validate_events:
  "\<exists>evs. snd (snd (validate env cl t)) = t @ evs \<and> filter isWaiting evs = []
     \<and> EnsureRedisStatefulsets \<notin> set evs"
  by (simp add: validate_def Let_def split: option.splits sum.splits)

lemma fetchBackup_events:
  "\<exists>evs. snd (fetchBackup env cl t) = t @ evs \<and> filter isWaiting evs = []
     \<and> EnsureRedisStatefulsets \<notin> set evs"
  by (simp add: fetchBackup_def split: option.splits sum.splits)

lemma ensureCluster_events:
  "\<exists>evs. trace (snd (ensureCluster env ctx)) = trace ctx @ evs
     \<and> filter isWaiting evs =
         (if EnsureRedisStatefulsets \<in> set evs
             \<and> EnsureRedisStatefulsets_result env (trace ctx @ takeWhile (\<lambda>e. e \<noteq> EnsureRedisStatefulsets) evs) = Inr True
          then [Waiting (statefulSetWaiter (cluster (snd (ensureCluster env ctx))))] else [])"
proof -
  obtain out cl t where v: "validate env (cluster ctx) (trace ctx) = (out, cl, t)"
    by (cases "validate env (cluster ctx) (trace ctx)") auto
  obtain vevs where ve: "t = trace ctx @ vevs" and vw: "filter isWaiting vevs = []"
    and vn: "EnsureRedisStatefulsets \<notin> set vevs"
    using validate_events [of env "cluster ctx" "trace ctx"] v by auto
  show ?thesis
  proof (cases "out = OK")
    case False
    then have "trace (snd (ensureCluster env ctx)) = trace ctx @ vevs"
      using v ve by (cases out) (simp_all add: ensureCluster_def)
    with vw vn show ?thesis by auto
  next
    case ok: True
    obtain r t1 where f: "fetchBackup env cl t = (r, t1)"
      by (cases "fetchBackup env cl t") auto
    obtain fevs where fe: "t1 = t @ fevs" and fw: "filter isWaiting fevs = []"
      and fn: "EnsureRedisStatefulsets \<notin> set fevs"
      using fetchBackup_events [of env cl t] f by auto
    show ?thesis
    proof (cases r)
      case (Inl o1)
      then have "trace (snd (ensureCluster env ctx)) = trace ctx @ (vevs @ fevs)"
        using v ok f ve fe by (simp add: ensureCluster_def)
      moreover have "filter isWaiting (vevs @ fevs) = []" using vw fw by simp
      moreover have "EnsureRedisStatefulsets \<notin> set (vevs @ fevs)" using vn fn by simp
      ultimately show ?thesis by (metis (full_types))
    next
      case (Inr backup)
      obtain revs where re: "snd (ensureResources env cl t1) = t1 @ revs"
        and rw: "filter isWaiting revs =
         (if EnsureRedisStatefulsets \<in> set revs
             \<and> EnsureRedisStatefulsets_result env (t1 @ takeWhile (\<lambda>e. e \<noteq> EnsureRedisStatefulsets) revs) = Inr True
          then [Waiting (statefulSetWaiter cl)] else [])"
        using ensureResources_events by blast
      have tr: "trace (snd (ensureCluster env ctx)) = trace ctx @ (vevs @ fevs @ revs)"
        using v ok f Inr ve fe re by (simp add: ensureCluster_def split_beta)
      have cl: "cluster (snd (ensureCluster env ctx)) = cl"
        using v ok f Inr by (simp add: ensureCluster_def split_beta)
      have tw: "takeWhile (\<lambda>e. e \<noteq> EnsureRedisStatefulsets) (vevs @ fevs @ revs) =
          vevs @ fevs @ takeWhile (\<lambda>e. e \<noteq> EnsureRedisStatefulsets) revs"
      proof -
        have "takeWhile (\<lambda>e. e \<noteq> EnsureRedisStatefulsets) ((vevs @ fevs) @ revs) =
            (vevs @ fevs) @ takeWhile (\<lambda>e. e \<noteq> EnsureRedisStatefulsets) revs"
          by (rule takeWhile_append2) (use vn fn in auto)
        then show ?thesis by simp
      qed
      have mem: "EnsureRedisStatefulsets \<in> set (vevs @ fevs @ revs) \<longleftrightarrow> EnsureRedisStatefulsets \<in> set revs"
        using vn fn by simp
      have "filter isWaiting (vevs @ fevs @ revs) =
         (if EnsureRedisStatefulsets \<in> set (vevs @ fevs @ revs)
             \<and> EnsureRedisStatefulsets_result env
                  (trace ctx @ takeWhile (\<lambda>e. e \<noteq> EnsureRedisStatefulsets) (vevs @ fevs @ revs)) = Inr True
          then [Waiting (statefulSetWaiter cl)] else [])"
        unfolding tw mem using vw fw rw ve fe by simp
      with tr cl show ?thesis by (metis (full_types))
    qed
  qed
qed

text \<open>
  Claim C9. Among the events that ensureCluster adds, a wait appears exactly when the step
  EnsureRedisStatefulsets was reached and answered that an update occurred; there is then
  one wait, named waitStatefulSetUpdating, with a timeout of 30 seconds times the replica
  count of the spec plus 2 (in the arithmetic of the code: the sum in 32 bits, the
  product in 64) and a tick of 5 seconds. The events before the step are those up to its
  first occurrence, and the collaborator answered on the trace up to there.
\<close>

theorem ensureCluster_waits_iff_updated:
  "filter isWaiting (drop (length (trace ctx)) (trace (snd (ensureCluster env ctx)))) =
     (if EnsureRedisStatefulsets \<in> set (drop (length (trace ctx)) (trace (snd (ensureCluster env ctx))))
         \<and> EnsureRedisStatefulsets_result env
              (trace ctx @ takeWhile (\<lambda>e. e \<noteq> EnsureRedisStatefulsets)
                             (drop (length (trace ctx)) (trace (snd (ensureCluster env ctx))))) = Inr True
      then [Waiting (WaitStatefulSetUpdating ''waitStatefulSetUpdating''
                       (30 * Second * scast (ClusterReplicas (Spec (cluster (snd (ensureCluster env ctx)))) + 2))
                       (5 * Second))]
      else [])"
proof -
  obtain evs where e: "trace (snd (ensureCluster env ctx)) = trace ctx @ evs"
    and w: "filter isWaiting evs =
         (if EnsureRedisStatefulsets \<in> set evs
             \<and> EnsureRedisStatefulsets_result env (trace ctx @ takeWhile (\<lambda>e. e \<noteq> EnsureRedisStatefulsets) evs) = Inr True
          then [Waiting (statefulSetWaiter (cluster (snd (ensureCluster env ctx))))] else [])"
    using ensureCluster_events by blast
  have "drop (length (trace ctx)) (trace (snd (ensureCluster env ctx))) = evs"
    using e by simp
  then show ?thesis
    using w by (simp add: statefulSetWaiter_def)
qed

text \<open>
  The theorem of claim C9 where the stateful sets report an update (the timeout is 90
  seconds at one replica) and where they do not.
\<close>

theorem ensureCluster_waits_iff_updated_witness:
  "filter isWaiting (trace (snd (ensureCluster updating (newContext wantsReplica)))) =
      [Waiting (WaitStatefulSetUpdating ''waitStatefulSetUpdating'' (90 * Second) (5 * Second))]
   \<and> filter isWaiting (trace (snd (ensureCluster calm (newContext wantsReplica)))) = []"
proof -
  have u: "ensureCluster updating (newContext wantsReplica) =
      (OK, (newContext wantsReplica)\<lparr>trace := [ClusterValidate, EnsureRedisConfigMap, EnsureRedisStatefulsets,
         Waiting (WaitStatefulSetUpdating ''waitStatefulSetUpdating'' (90 * Second) (5 * Second)),
         EnsureRedisHeadLessSvcs, EnsureRedisSvc, EnsureRedisOSMSecret]\<rparr>)"
    by (simp add: ensureCluster_def validate_def fetchBackup_def ensureResources_def ensureEndpoints_def
        wrapped_def unwrapped_def statefulSetWaiter_def updating_def calm_def newContext_def wantsReplica_def)
  have c: "ensureCluster calm (newContext wantsReplica) =
      (OK, (newContext wantsReplica)\<lparr>trace := [ClusterValidate, EnsureRedisConfigMap, EnsureRedisStatefulsets,
         EnsureRedisHeadLessSvcs, EnsureRedisSvc, EnsureRedisOSMSecret]\<rparr>)"
    by (simp add: ensureCluster_def validate_def fetchBackup_def ensureResources_def ensureEndpoints_def
        wrapped_def unwrapped_def statefulSetWaiter_def calm_def newContext_def wantsReplica_def)
  have t: "trace (newContext wantsReplica) = []"
    by (simp add: newContext_def)
  have 1: "filter isWaiting (trace (snd (ensureCluster updating (newContext wantsReplica)))) =
      [Waiting (WaitStatefulSetUpdating ''waitStatefulSetUpdating'' (90 * Second) (5 * Second))]"
    using ensureCluster_waits_iff_updated [of "newContext wantsReplica" updating]
    unfolding u t by (simp add: updating_def calm_def newContext_def wantsReplica_def)
  have 2: "filter isWaiting (trace (snd (ensureCluster calm (newContext wantsReplica)))) = []"
    using ensureCluster_waits_iff_updated [of "newContext wantsReplica" calm]
    unfolding c t by (simp add: calm_def)
  from 1 2 show ?thesis by simp
qed

text \<open>
  For a replica count from 0 to 307445732 neither the sum nor the product wraps around:
  the timeout is 30 seconds times the replica count plus 2 in the integers.
\<close>

lemma timeout_without_overflow:
  fixes replicas :: "32 word"
  assumes "0 \<le> sint replicas" and "sint replicas \<le> 307445732"
  shows "sint (30 * Second * scast (replicas + 2) :: 64 word) = 30000000000 * (sint replicas + 2)"
proof -
  have a: "sint (replicas + 2) = sint replicas + 2"
    using assms by (simp add: sint_word_ariths signed_take_bit_int_eq_self)
  have b: "sint (scast (replicas + 2) :: 64 word) = sint replicas + 2"
    using a by (simp add: sint_up_scast is_up)
  have c: "(30 * Second :: 64 word) = 30000000000"
    by (simp add: Second_def)
  have "sint (30000000000 * scast (replicas + 2) :: 64 word) =
      signed_take_bit 63 (sint (30000000000 :: 64 word) * sint (scast (replicas + 2) :: 64 word))"
    by (simp add: sint_word_ariths)
  also have "\<dots> = signed_take_bit 63 (30000000000 * (sint replicas + 2))"
    using b by simp
  also have "\<dots> = 30000000000 * (sint replicas + 2)"
    using assms by (intro signed_take_bit_int_eq_self) simp_all
  finally show ?thesis using c by simp
qed

end
